theory Spec2Isabelle
  imports Main
begin

section \<open>Time\<close>

text \<open>
  A Python \<open>datetime\<close> is modelled as the number of microseconds on one fixed
  wall-clock axis (that of the configured time zone at the UTC offset of \<open>now\<close>, which
  is the offset pytz keeps when a \<open>timedelta\<close> is added and when \<open>replace\<close> is
  called).  Comparisons of aware datetimes compare instants, so they are comparisons
  of these integers.  A \<open>timedelta\<close> is an integer number of microseconds.
\<close>

type_synonym datetime = int

definition usec_per_minute :: int where
  "usec_per_minute = 60000000"

definition usec_per_hour :: int where
  "usec_per_hour = 3600000000"

definition usec_per_day :: int where
  "usec_per_day = 86400000000"

definition minutes :: "int \<Rightarrow> int" where
  "minutes m = m * usec_per_minute"

definition hours :: "int \<Rightarrow> int" where
  "hours h = h * usec_per_hour"

definition days :: "int \<Rightarrow> int" where
  "days d = d * usec_per_day"

datatype error = ValueError | ProviderError | DbError | AttributeError

text \<open>
  \<open>dt.replace(hour=h, minute=0, second=0, microsecond=0)\<close>: midnight of the
  day of \<open>dt\<close> plus \<open>h\<close> hours; Python raises \<open>ValueError\<close> unless
  \<open>0 \<le> h \<le> 23\<close>.
\<close>

definition midnight :: "datetime \<Rightarrow> datetime" where
  "midnight dt = dt - dt mod usec_per_day"

definition replace_hour :: "datetime \<Rightarrow> int \<Rightarrow> error + datetime" where
  "replace_hour dt h =
     (if 0 \<le> h \<and> h \<le> 23 then Inr (midnight dt + hours h)
      else Inl ValueError)"

section \<open>Calendar service: free slots\<close>

record busy =
  b_start :: datetime
  b_end :: datetime

record slot =
  s_start :: datetime
  s_end :: datetime

text \<open>
  The calendar provider \<open>get_busy_slots(start, end)\<close>: the busy intervals the remote
  calendar reports for a range, or the exception it raises after its retries.
\<close>

type_synonym provider = "datetime \<Rightarrow> datetime \<Rightarrow> error + busy list"

record config =
  START_HOUR :: int
  END_HOUR :: int
  SLOT_DURATION :: int

text \<open>Python's \<open>x or default\<close> on an optional integer: \<open>None\<close> and \<open>0\<close> are falsy.\<close>

definition int_or :: "int option \<Rightarrow> int \<Rightarrow> int" where
  "int_or x d = (case x of None \<Rightarrow> d | Some v \<Rightarrow> if v = 0 then d else v)"

text \<open>The inner \<open>for busy in busy_slots\<close> loop with its \<open>break\<close>.\<close>

fun is_busy :: "datetime \<Rightarrow> datetime \<Rightarrow> busy list \<Rightarrow> bool" where
  "is_busy current_slot slot_end [] = False"
| "is_busy current_slot slot_end (b # bs) =
     (if current_slot < b_end b \<and> slot_end > b_start b then True
      else is_busy current_slot slot_end bs)"

definition slot_interval :: int where
  "slot_interval = minutes 30"

text \<open>
  The \<open>while current_slot < end_of_day\<close> loop of \<open>get_free_slots\<close> for one day;
  the result is what the loop appends to \<open>free_slots\<close>.
\<close>

function scan_slots :: "datetime \<Rightarrow> datetime \<Rightarrow> int \<Rightarrow> busy list \<Rightarrow> slot list" where
  "scan_slots current_slot end_of_day slot_duration busy_slots =
     (if current_slot < end_of_day then
        (let slot_end = current_slot + minutes slot_duration in
         if slot_end > end_of_day then []
         else (if \<not> is_busy current_slot slot_end busy_slots
               then [\<lparr>s_start = current_slot, s_end = slot_end\<rparr>] else [])
              @ scan_slots (current_slot + slot_interval) end_of_day slot_duration busy_slots)
      else [])"
  by pat_completeness auto
termination
  by (relation "measure (\<lambda>(c, e, d, b). nat (e - c))")
     (auto simp: slot_interval_def minutes_def usec_per_minute_def)

text \<open>
  The body of the \<open>for day_offset in range(...)\<close> loop: \<open>Inl\<close> is an exception that
  leaves \<open>get_free_slots\<close> (the \<open>replace\<close> calls are outside the \<open>try\<close>); a failing
  provider is logged and the day contributes nothing (\<open>continue\<close>).
\<close>

definition day_slots ::
  "provider \<Rightarrow> datetime \<Rightarrow> int \<Rightarrow> int \<Rightarrow> int \<Rightarrow> int \<Rightarrow> error + slot list" where
  "day_slots get_busy_slots now start_hour end_hour slot_duration day_offset =
     (case replace_hour (now + days day_offset) start_hour of
        Inl e \<Rightarrow> Inl e
      | Inr current_day \<Rightarrow>
          (case replace_hour current_day end_hour of
             Inl e \<Rightarrow> Inl e
           | Inr end_of_day \<Rightarrow>
               (case get_busy_slots current_day end_of_day of
                  Inl e \<Rightarrow> Inr []
                | Inr busy_slots \<Rightarrow>
                    Inr (scan_slots current_day end_of_day slot_duration busy_slots))))"

fun days_loop ::
  "provider \<Rightarrow> datetime \<Rightarrow> int \<Rightarrow> int \<Rightarrow> int \<Rightarrow> int list \<Rightarrow> slot list \<Rightarrow> error + slot list" where
  "days_loop get_busy_slots now start_hour end_hour slot_duration [] free_slots = Inr free_slots"
| "days_loop get_busy_slots now start_hour end_hour slot_duration (day_offset # rest) free_slots =
     (case day_slots get_busy_slots now start_hour end_hour slot_duration day_offset of
        Inl e \<Rightarrow> Inl e
      | Inr found \<Rightarrow>
          days_loop get_busy_slots now start_hour end_hour slot_duration rest (free_slots @ found))"

definition get_free_slots ::
  "config \<Rightarrow> provider \<Rightarrow> datetime \<Rightarrow> int \<Rightarrow> int option \<Rightarrow> int option \<Rightarrow> bool
     \<Rightarrow> error + slot list" where
  "get_free_slots cfg get_busy_slots now ndays start_hour end_hour skip_today =
     (let start_hour' = int_or start_hour (START_HOUR cfg);
          end_hour' = int_or end_hour (END_HOUR cfg);
          slot_duration = SLOT_DURATION cfg;
          start_offset = (if skip_today then 1 else 0)
      in days_loop get_busy_slots now start_hour' end_hour' slot_duration
           [start_offset ..  start_offset + ndays - 1] [])"

section \<open>Booking service: availability check\<close>

text \<open>The \<open>for busy in busy_slots\<close> loop of \<open>is_slot_available\<close>, returning at the first overlap.\<close>

fun no_overlap :: "datetime \<Rightarrow> datetime \<Rightarrow> busy list \<Rightarrow> bool" where
  "no_overlap start_time end_time [] = True"
| "no_overlap start_time end_time (b # bs) =
     (if start_time < b_end b \<and> end_time > b_start b then False
      else no_overlap start_time end_time bs)"

definition is_slot_available :: "provider \<Rightarrow> datetime \<Rightarrow> datetime \<Rightarrow> bool" where
  "is_slot_available get_busy_slots start_time end_time =
     (case get_busy_slots start_time end_time of
        Inl e \<Rightarrow> False
      | Inr busy_slots \<Rightarrow> no_overlap start_time end_time busy_slots)"

section \<open>Text and keyboard-layout correction\<close>

text \<open>
  A Python \<open>str\<close> is a sequence of Unicode code points; it is modelled as a list of
  natural numbers, so that \<open>length\<close> counts what Python's \<open>len\<close> counts.
\<close>

type_synonym str = "nat list"

definition ascii :: "string \<Rightarrow> str" where
  "ascii s = map of_char s"

text \<open>The character classes \<open>[A-Za-z]\<close> and the Cyrillic class of the two \<open>re.findall\<close> calls:
  A-Z, a-z; and U+0410-U+042F, U+0430-U+044F, U+0401, U+0451.\<close>

definition is_latin :: "nat \<Rightarrow> bool" where
  "is_latin c = ((65 \<le> c \<and> c \<le> 90) \<or> (97 \<le> c \<and> c \<le> 122))"

definition is_cyrillic :: "nat \<Rightarrow> bool" where
  "is_cyrillic c = ((1040 \<le> c \<and> c \<le> 1071) \<or> (1072 \<le> c \<and> c \<le> 1103) \<or> c = 1025 \<or> c = 1105)"

text \<open>The code points for which \<open>str.isspace\<close> holds; \<open>str.split()\<close> splits on runs of them.\<close>

definition is_space :: "nat \<Rightarrow> bool" where
  "is_space c = (c \<in> set [9, 10, 11, 12, 13, 28, 29, 30, 31, 32, 133, 160, 5760,
     8192, 8193, 8194, 8195, 8196, 8197, 8198, 8199, 8200, 8201, 8202,
     8232, 8233, 8239, 8287, 12288])"

fun split_ws :: "str \<Rightarrow> str \<Rightarrow> str list" where
  "split_ws word [] = (if word = [] then [] else [word])"
| "split_ws word (c # cs) =
     (if is_space c then (if word = [] then split_ws [] cs else word # split_ws [] cs)
      else split_ws (word @ [c]) cs)"

definition split_text :: "str \<Rightarrow> str list" where
  "split_text t = split_ws [] t"

text \<open>\<open>re.fullmatch(r'[A-Za-z]+', w)\<close>.\<close>

definition fullmatch_latin :: "str \<Rightarrow> bool" where
  "fullmatch_latin w = (w \<noteq> [] \<and> list_all is_latin w)"

definition needs_layout_correction :: "str \<Rightarrow> bool" where
  "needs_layout_correction t =
     (let latin = length (filter is_latin t);
          cyrillic = length (filter is_cyrillic t)
      in if cyrillic = 0 \<and> latin > 0 then True
         else if latin > 2 * cyrillic then True
         else (let words = split_text t
               in if length words \<le> 2 \<and> list_all fullmatch_latin words then True
                  else False))"

text \<open>
  The module constants \<open>eng\<close> and \<open>rus\<close> (the two keyboard rows, as code points), and
  \<open>str.upper\<close> restricted to the characters of these two strings.
\<close>

definition eng :: str where
  "eng = [113, 119, 101, 114, 116, 121, 117, 105, 111, 112, 91, 93, 97, 115, 100, 102,
          103, 104, 106, 107, 108, 59, 39, 122, 120, 99, 118, 98, 110, 109, 44, 46]"

definition rus :: str where
  "rus = [1081, 1094, 1091, 1082, 1077, 1085, 1075, 1096, 1097, 1079, 1093, 1098, 1092,
          1099, 1074, 1072, 1087, 1088, 1086, 1083, 1076, 1078, 1101, 1103, 1095, 1089,
          1084, 1080, 1090, 1100, 1073, 1102]"

definition upper_char :: "nat \<Rightarrow> nat" where
  "upper_char c = (if (97 \<le> c \<and> c \<le> 122) \<or> (1072 \<le> c \<and> c \<le> 1103) then c - 32 else c)"

text \<open>
  \<open>str.maketrans(eng + eng.upper(), rus + rus.upper())\<close> builds a dict, so for a
  character that occurs twice (the punctuation keys) the later pair wins; \<open>translate\<close>
  leaves a character without an entry as it is.
\<close>

definition layout_table :: "(nat \<times> nat) list" where
  "layout_table = zip (eng @ map upper_char eng) (rus @ map upper_char rus)"

definition translate_char :: "nat \<Rightarrow> nat" where
  "translate_char c = (case map_of (rev layout_table) c of None \<Rightarrow> c | Some r \<Rightarrow> r)"

definition to_russian_layout :: "str \<Rightarrow> str" where
  "to_russian_layout t = map translate_char t"

text \<open>
  \<open>is_query_relevant_with_layout_correction\<close>.  The parameter \<open>classify\<close>
  is \<open>is_query_relevant_ai\<close>, the LLM classifier (with its fail-open handling) for the history of this turn.  The
  second component of the result lists the texts the classifier was called on, in order.
\<close>

definition is_query_relevant_with_layout_correction ::
  "(str \<Rightarrow> bool) \<Rightarrow> str \<Rightarrow> bool \<times> str list" where
  "is_query_relevant_with_layout_correction classify question =
     (let relevant = classify question
      in if \<not> relevant \<and> needs_layout_correction question then
           (let fixed_question = to_russian_layout question
            in if fixed_question \<noteq> question
               then (classify fixed_question, [question, fixed_question])
               else (relevant, [question]))
         else (relevant, [question]))"

section \<open>The persistent store\<close>

datatype trial_lesson_status = PLANNED | COMPLETED | CANCELLED | NO_SHOW

datatype onboarding_step =
  NOT_STARTED | PARENT_DATA | CHILDREN_COUNT | CHILDREN_DATA | CONFIRMATION | ONBOARDING_COMPLETED

text \<open>The dict \<open>finish_onboarding\<close> stores in the JSON column \<open>Parent.user_data\<close>.\<close>

record user_data =
  ud_parent_name :: "str option"
  ud_parent_phone :: "str option"
  ud_parent_email :: "str option"
  ud_parent_contact_tg :: "str option"
  ud_child_name :: "str option"
  ud_child_age :: int
  ud_child_interests :: "str option"
  ud_course_name :: str

text \<open>
  A row of \<open>parents\<close>.  The table is a map keyed by \<open>telegram_id\<close>, the column with the
  unique constraint by which the handlers look a row up; the updates that select by
  \<open>Parent.id\<close> go through every row.  In \<open>user_data\<close>,
  \<open>None\<close> stands for both \<open>NULL\<close> and the empty dict (the code reads the column as
  \<open>parent.user_data or {}\<close>).
\<close>

record parent =
  p_id :: int
  username :: "str option"
  full_name :: "str option"
  phone :: "str option"
  email :: "str option"
  onboarding_step :: onboarding_step
  onboarding_completed_at :: "datetime option"
  is_enrolled :: bool
  is_blocked :: bool
  irrelevant_count :: int
  user_data :: "user_data option"

record child =
  c_id :: int
  c_parent_id :: int
  c_name :: str
  c_age :: int
  c_interests :: "str option"
  c_course_name :: "str option"
  c_lessons_count :: "int option"

record lesson =
  l_id :: int
  l_parent_id :: int
  l_child_id :: int
  l_event_id :: "str option"
  scheduled_at :: datetime
  status :: trial_lesson_status
  l_course_name :: "str option"
  l_notes :: "str option"
  reminder_24h_sent :: bool
  reminder_1h_sent :: bool

datatype role = User | Assistant

record dialog_entry =
  d_parent_id :: int
  d_role :: role
  d_message :: str

record store =
  parents :: "int \<rightharpoonup> parent"
  children :: "child list"
  lessons :: "lesson list"
  dialog_history :: "dialog_entry list"
  next_parent_id :: int
  next_child_id :: int
  next_lesson_id :: int

text \<open>
  The environment of a call: whether \<open>config.DATABASE_URL\<close> is set, and which store
  operations raise (a lost connection, a constraint or a type error of the driver).
\<close>

datatype db_op =
  OpGetFullParentData | OpGetOrCreateParent | OpGetChildren | OpAddChildProfile
  | OpAddTrialLesson | OpCompleteOnboarding

record env =
  database_url :: bool
  db_raises :: "db_op \<Rightarrow> bool"

definition attempt :: "env \<Rightarrow> db_op \<Rightarrow> 'a \<Rightarrow> error + 'a" where
  "attempt ev op r = (if db_raises ev op then Inl DbError else Inr r)"

text \<open>\<open>Parent(telegram_id=..., username=...)\<close> with the column defaults.\<close>

definition new_parent :: "int \<Rightarrow> str option \<Rightarrow> parent" where
  "new_parent pid uname =
     \<lparr>p_id = pid, username = uname, full_name = None, phone = None, email = None,
      onboarding_step = NOT_STARTED, onboarding_completed_at = None,
      is_enrolled = False, is_blocked = False, irrelevant_count = 0, user_data = None\<rparr>"

definition insert_parent :: "store \<Rightarrow> int \<Rightarrow> parent \<Rightarrow> store" where
  "insert_parent db telegram_id p =
     db\<lparr>parents := (parents db)(telegram_id \<mapsto> p), next_parent_id := next_parent_id db + 1\<rparr>"

text \<open>\<open>update(Parent).where(Parent.id == parent_id).values(...)\<close>.\<close>

definition update_parent_by_id :: "store \<Rightarrow> int \<Rightarrow> (parent \<Rightarrow> parent) \<Rightarrow> store" where
  "update_parent_by_id db parent_id f =
     db\<lparr>parents := (\<lambda>k. map_option (\<lambda>p. if p_id p = parent_id then f p else p) (parents db k))\<rparr>"

definition get_or_create_parent :: "env \<Rightarrow> store \<Rightarrow> int \<Rightarrow> str option \<Rightarrow> store \<times> parent option" where
  "get_or_create_parent ev db telegram_id uname =
     (if \<not> database_url ev then (db, None)
      else (case parents db telegram_id of
              Some p \<Rightarrow> (db, Some p)
            | None \<Rightarrow>
                (let p = new_parent (next_parent_id db) uname
                 in (insert_parent db telegram_id p, Some p))))"

definition increment_irrelevant_count :: "env \<Rightarrow> store \<Rightarrow> int \<Rightarrow> str option \<Rightarrow> store \<times> int" where
  "increment_irrelevant_count ev db user_id uname =
     (if \<not> database_url ev then (db, 0)
      else (case parents db user_id of
              Some p \<Rightarrow>
                (let p' = p\<lparr>irrelevant_count := irrelevant_count p + 1\<rparr>
                 in (db\<lparr>parents := (parents db)(user_id \<mapsto> p')\<rparr>, irrelevant_count p'))
            | None \<Rightarrow>
                (let p = (new_parent (next_parent_id db) uname)\<lparr>irrelevant_count := 1\<rparr>
                 in (insert_parent db user_id p, irrelevant_count p))))"

text \<open>\<open>block_user(parent_id)\<close>; the handler passes \<open>user_profile.get('id')\<close>, which may be \<open>None\<close>.\<close>

definition block_user :: "store \<Rightarrow> int option \<Rightarrow> store" where
  "block_user db parent_id =
     (case parent_id of
        None \<Rightarrow> db
      | Some i \<Rightarrow> update_parent_by_id db i (\<lambda>p. p\<lparr>is_blocked := True\<rparr>))"

text \<open>
  \<open>unblock_and_reset(telegram_id)\<close>: one \<open>UPDATE\<close> with both values; the boolean is
  \<open>rowcount > 0\<close>.
\<close>

definition unblock_and_reset :: "store \<Rightarrow> int \<Rightarrow> store \<times> bool" where
  "unblock_and_reset db telegram_id =
     (case parents db telegram_id of
        None \<Rightarrow> (db, False)
      | Some p \<Rightarrow>
          (db\<lparr>parents := (parents db)(telegram_id \<mapsto> p\<lparr>is_blocked := False, irrelevant_count := 0\<rparr>)\<rparr>,
           True))"

definition add_child_profile ::
  "store \<Rightarrow> int \<Rightarrow> str \<Rightarrow> int \<Rightarrow> str option \<Rightarrow> str option \<Rightarrow> int option \<Rightarrow> store \<times> child" where
  "add_child_profile db parent_id name age interests course_name lessons_count =
     (let c = \<lparr>c_id = next_child_id db, c_parent_id = parent_id, c_name = name, c_age = age,
               c_interests = interests, c_course_name = course_name,
               c_lessons_count = lessons_count\<rparr>
      in (db\<lparr>children := children db @ [c], next_child_id := next_child_id db + 1\<rparr>, c))"

definition get_children :: "store \<Rightarrow> int \<Rightarrow> child list" where
  "get_children db parent_id = filter (\<lambda>c. c_parent_id c = parent_id) (children db)"

text \<open>
  \<open>add_trial_lesson\<close>; \<open>to_utc_naive\<close> changes the representation of the instant, not the
  instant, so \<open>scheduled_at\<close> is stored as it is given.
\<close>

definition add_trial_lesson ::
  "store \<Rightarrow> int \<Rightarrow> int \<Rightarrow> str option \<Rightarrow> datetime \<Rightarrow> str option \<Rightarrow> str option \<Rightarrow> store \<times> lesson" where
  "add_trial_lesson db parent_id child_id event_id sched course_name notes =
     (let l = \<lparr>l_id = next_lesson_id db, l_parent_id = parent_id, l_child_id = child_id,
               l_event_id = event_id, scheduled_at = sched, status = PLANNED,
               l_course_name = course_name, l_notes = notes,
               reminder_24h_sent = False, reminder_1h_sent = False\<rparr>
      in (db\<lparr>lessons := lessons db @ [l], next_lesson_id := next_lesson_id db + 1\<rparr>, l))"

text \<open>\<open>complete_onboarding_in_db\<close>: one \<open>UPDATE\<close> of the row with \<open>Parent.id == parent_id\<close>.\<close>

definition complete_onboarding_in_db ::
  "store \<Rightarrow> datetime \<Rightarrow> int \<Rightarrow> str option \<Rightarrow> str option \<Rightarrow> str option \<Rightarrow> user_data \<Rightarrow> store" where
  "complete_onboarding_in_db db now_utc parent_id fname ph em ud =
     update_parent_by_id db parent_id
       (\<lambda>p. p\<lparr>onboarding_completed_at := Some now_utc, user_data := Some ud,
               onboarding_step := ONBOARDING_COMPLETED,
               full_name := fname, phone := ph, email := em\<rparr>)"

definition save_dialog :: "env \<Rightarrow> store \<Rightarrow> int \<Rightarrow> role \<Rightarrow> str \<Rightarrow> store" where
  "save_dialog ev db parent_id r message =
     (if \<not> database_url ev then db
      else db\<lparr>dialog_history := dialog_history db @
             [\<lparr>d_parent_id = parent_id, d_role = r, d_message = message\<rparr>]\<rparr>)"

text \<open>\<open>load_dialog(parent_id, limit=20)\<close>: the last 20 entries, oldest first.\<close>

definition load_dialog :: "env \<Rightarrow> store \<Rightarrow> int \<Rightarrow> (role \<times> str) list" where
  "load_dialog ev db parent_id =
     (if \<not> database_url ev then []
      else (let entries = filter (\<lambda>d. d_parent_id d = parent_id) (dialog_history db)
            in map (\<lambda>d. (d_role d, d_message d)) (drop (length entries - 20) entries)))"

section \<open>Scheduler: reminder sweep and completion sweep\<close>

text \<open>
  \<open>mark_lesson_completed(session, lesson_id)\<close>: \<open>UPDATE ... WHERE id = lesson_id\<close>.
\<close>

definition mark_lesson_completed :: "lesson list \<Rightarrow> int \<Rightarrow> lesson list" where
  "mark_lesson_completed ls lesson_id =
     map (\<lambda>l. if l_id l = lesson_id then l\<lparr>status := COMPLETED\<rparr> else l) ls"

text \<open>
  \<open>check_completed_lessons\<close>: \<open>now_utc\<close> is the reading of the clock; the query selects
  with \<open>scheduled_at <= cutoff_time\<close>, and the loop marks each selected lesson.
\<close>

definition check_completed_lessons :: "datetime \<Rightarrow> lesson list \<Rightarrow> lesson list" where
  "check_completed_lessons now_utc ls =
     (let cutoff_time = now_utc - hours 1;
          completed_lessons = filter (\<lambda>l. status l = PLANNED \<and> scheduled_at l \<le> cutoff_time) ls
      in foldl mark_lesson_completed ls (map l_id completed_lessons))"

datatype reminder_type = Reminder24h | Reminder1h

record notice =
  n_lesson_id :: int
  n_type :: reminder_type

text \<open>
  What the outside world does to one \<open>send_reminder_message\<close> call: whether building the
  text succeeds (it runs outside the function's \<open>try\<close>, so a failure leaves the function
  as an exception), and whether \<open>bot.send_message\<close> delivers (a failure is caught and
  logged inside the function, which then returns normally).
\<close>

record bot =
  build_ok :: "lesson \<Rightarrow> bool"
  send_ok :: "lesson \<Rightarrow> bool"

text \<open>
  \<open>send_reminder_message\<close>: \<open>Inl\<close> is an exception leaving the function; \<open>Inr\<close> is a
  normal return, with the notices that reached the user.
\<close>

definition send_reminder_message :: "bot \<Rightarrow> lesson \<Rightarrow> reminder_type \<Rightarrow> error + notice list" where
  "send_reminder_message b l when =
     (if \<not> build_ok b l then Inl AttributeError
      else if send_ok b l then Inr [\<lparr>n_lesson_id = l_id l, n_type = when\<rparr>]
      else Inr [])"

definition in_window_24h :: "datetime \<Rightarrow> lesson \<Rightarrow> bool" where
  "in_window_24h now_msk l =
     ((now_msk + hours 23 + minutes 50 \<le> scheduled_at l \<and>
       scheduled_at l \<le> now_msk + hours 24 + minutes 10) \<and> \<not> reminder_24h_sent l)"

definition in_window_1h :: "datetime \<Rightarrow> lesson \<Rightarrow> bool" where
  "in_window_1h now_msk l =
     ((now_msk + minutes 50 \<le> scheduled_at l \<and>
       scheduled_at l \<le> now_msk + hours 1 + minutes 10) \<and> \<not> reminder_1h_sent l)"

text \<open>The \<open>for lesson in planned_lessons\<close> loop: the list \<open>lessons_to_process\<close>.\<close>

fun lessons_to_process :: "datetime \<Rightarrow> lesson list \<Rightarrow> (lesson \<times> reminder_type) list" where
  "lessons_to_process now_msk [] = []"
| "lessons_to_process now_msk (l # ls) =
     (if in_window_24h now_msk l then (l, Reminder24h) # lessons_to_process now_msk ls
      else if in_window_1h now_msk l then (l, Reminder1h) # lessons_to_process now_msk ls
      else lessons_to_process now_msk ls)"

text \<open>The loop over \<open>results\<close>: the ids whose result is not an exception, per reminder type.\<close>

fun successful_ids ::
  "reminder_type \<Rightarrow> (lesson \<times> reminder_type) list \<Rightarrow> (error + notice list) list \<Rightarrow> int list" where
  "successful_ids t ((l, rt) # ps) (r # rs) =
     (case r of
        Inl e \<Rightarrow> successful_ids t ps rs
      | Inr v \<Rightarrow> (if rt = t then l_id l # successful_ids t ps rs else successful_ids t ps rs))"
| "successful_ids t ps rs = []"

fun delivered :: "(error + notice list) list \<Rightarrow> notice list" where
  "delivered [] = []"
| "delivered (Inl e # rs) = delivered rs"
| "delivered (Inr ns # rs) = ns @ delivered rs"

text \<open>
  \<open>check_and_send_reminders\<close>.  The three clock readings of one run are parameters:
  \<open>now_msk\<close> (the windows), \<open>now_utc\<close> (the prefilter of the query) and the reading
  \<open>check_completed_lessons\<close> takes at the end.  The result is the lessons table after the
  run and the notices that reached users.
\<close>

definition check_and_send_reminders ::
  "bot \<Rightarrow> datetime \<Rightarrow> datetime \<Rightarrow> datetime \<Rightarrow> lesson list \<Rightarrow> lesson list \<times> notice list" where
  "check_and_send_reminders b now_msk now_utc now_completion ls =
     (let wide_end_utc = now_utc + hours 25;
          planned_lessons = filter (\<lambda>l. status l = PLANNED \<and> scheduled_at l \<le> wide_end_utc) ls;
          to_process = lessons_to_process now_msk planned_lessons
      in if to_process = [] then (ls, [])
         else
           (let results = map (\<lambda>(l, when). send_reminder_message b l when) to_process;
                successful_ids_24h = successful_ids Reminder24h to_process results;
                successful_ids_1h = successful_ids Reminder1h to_process results;
                ls1 = map (\<lambda>l. if l_id l \<in> set successful_ids_24h
                                then l\<lparr>reminder_24h_sent := True\<rparr> else l) ls;
                ls2 = map (\<lambda>l. if l_id l \<in> set successful_ids_1h
                                then l\<lparr>reminder_1h_sent := True\<rparr> else l) ls1
            in (check_completed_lessons now_completion ls2, delivered results)))"

section \<open>The text-message handler and the moderation guard\<close>

text \<open>The dict \<open>get_full_parent_data\<close> returns, with the keys the handler reads.\<close>

record profile =
  pr_id :: "int option"
  pr_is_blocked :: bool
  pr_onboarding_completed_at :: "datetime option"
  pr_user_data :: "user_data option"

definition profile_of :: "parent \<Rightarrow> profile" where
  "profile_of p =
     \<lparr>pr_id = Some (p_id p), pr_is_blocked = is_blocked p,
      pr_onboarding_completed_at = onboarding_completed_at p, pr_user_data = user_data p\<rparr>"

definition get_full_parent_data :: "env \<Rightarrow> store \<Rightarrow> int \<Rightarrow> str option \<Rightarrow> store \<times> profile option" where
  "get_full_parent_data ev db user_id uname =
     (if \<not> database_url ev then (db, None)
      else (case parents db user_id of
              None \<Rightarrow>
                (let p = new_parent (next_parent_id db) uname
                 in (insert_parent db user_id p, Some (profile_of p)))
            | Some p \<Rightarrow> (db, Some (profile_of p))))"

text \<open>The profile the handler builds when the store gives none.\<close>

definition minimal_profile :: profile where
  "minimal_profile =
     \<lparr>pr_id = None, pr_is_blocked = False, pr_onboarding_completed_at = None,
      pr_user_data = None\<rparr>"

text \<open>
  The fixed reply texts of the handler, by name, and what the handler does to the
  outside world: \<open>message.answer\<close>, the operator notifications of
  \<open>admin_notifications\<close> (one call each; the call fans out to \<open>config.ADMIN_IDS\<close>), and
  the command handlers it delegates to.
\<close>

datatype reply =
  OnboardingInvite | SoftNudge | HandoffOffer | BlockedNotice | FallbackNotice
  | ManagerContacted | ErrorApology | ReplyText str

datatype effect =
  Answer reply
  | NotifyAdminOfBlock int "(role \<times> str) list"
  | NotifyAdminOfRequest int
  | NotifyAdminOnError int "(role \<times> str) list"
  | CmdBook
  | CmdCancel

text \<open>
  What the RAG step yields after the handler's regular expression has looked for control
  commands in the answer: no retriever on the bot, no answer, an answer with exactly one
  distinct command (the command and the answer without it), or any other answer.
\<close>

datatype rag_outcome = NoRetriever | NoAnswer | OneCommand str str | PlainAnswer str

text \<open>
  The collaborators of one turn: the intent recognizer on the bot (if any), the template
  lookup with the response built from it, the LLM relevance classifier, and the RAG step.
\<close>

record collaborators =
  intent_recognizer :: "(str \<Rightarrow> str option) option"
  template_response :: "str \<Rightarrow> str option"
  is_query_relevant_ai :: "str \<Rightarrow> bool"
  rag :: "str \<Rightarrow> rag_outcome"

record incoming =
  m_user_id :: int
  m_username :: "str option"
  m_text :: str

definition IRRELEVANT_QUERY_LIMIT :: int where
  "IRRELEVANT_QUERY_LIMIT = 3"

text \<open>The keys of \<open>intent_to_action\<close>.\<close>

definition intent_to_action :: "str list" where
  "intent_to_action = [ascii ''booking'']"

text \<open>The prefix of the dialog entry written for a dispatched intent.\<close>

definition intent_recognized_prefix :: str where
  "intent_recognized_prefix =
     [1056, 1072, 1089, 1087, 1086, 1079, 1085, 1072, 1085, 32,
      1080, 1085, 1090, 1077, 1085, 1090, 58, 32]"

definition save_dialog_if :: "env \<Rightarrow> store \<Rightarrow> parent option \<Rightarrow> role \<Rightarrow> str \<Rightarrow> store" where
  "save_dialog_if ev db par r message =
     (case par of None \<Rightarrow> db | Some p \<Rightarrow> save_dialog ev db (p_id p) r message)"

text \<open>
  The branch \<open>if not is_relevant\<close> of the handler: the counter is incremented and the
  reply chosen by the new count.
\<close>

definition handle_irrelevant ::
  "env \<Rightarrow> store \<Rightarrow> profile \<Rightarrow> incoming \<Rightarrow> (role \<times> str) list \<Rightarrow> store \<times> effect list" where
  "handle_irrelevant ev db user_profile m history =
     (case increment_irrelevant_count ev db (m_user_id m) (m_username m) of
        (db1, new_irrelevant_count) \<Rightarrow>
          if new_irrelevant_count = 1 then (db1, [Answer SoftNudge])
          else if new_irrelevant_count < IRRELEVANT_QUERY_LIMIT then (db1, [Answer HandoffOffer])
          else if new_irrelevant_count \<ge> IRRELEVANT_QUERY_LIMIT then
            (block_user db1 (pr_id user_profile),
             [Answer BlockedNotice, NotifyAdminOfBlock (m_user_id m) history])
          else (db1, []))"

text \<open>\<open>handle_request_manager_callback\<close> for a message event.\<close>

definition handle_request_manager_callback :: "incoming \<Rightarrow> effect list" where
  "handle_request_manager_callback m = [NotifyAdminOfRequest (m_user_id m), Answer ManagerContacted]"

definition fallback :: "incoming \<Rightarrow> effect list" where
  "fallback m = Answer FallbackNotice # handle_request_manager_callback m"

text \<open>The part of the handler after the relevance check has passed.\<close>

definition handle_relevant ::
  "env \<Rightarrow> collaborators \<Rightarrow> store \<Rightarrow> parent option \<Rightarrow> incoming \<Rightarrow> store \<times> effect list" where
  "handle_relevant ev orc db par m =
     (case rag orc (m_text m) of
        NoRetriever \<Rightarrow> (db, fallback m)
      | NoAnswer \<Rightarrow> (db, fallback m)
      | OneCommand cmd clean_answer \<Rightarrow>
          (let said = (if clean_answer \<noteq> [] then [Answer (ReplyText clean_answer)] else [])
           in if cmd = ascii ''START_ENROLLMENT'' then (db, said @ [CmdBook])
              else if cmd = ascii ''CANCEL_BOOKING'' then (db, said @ [CmdCancel])
              else (db, said @ fallback m))
      | PlainAnswer rag_answer \<Rightarrow>
          (save_dialog_if ev db par Assistant rag_answer, [Answer (ReplyText rag_answer)]))"

text \<open>
  The template lookup on \<open>detected_intent or user_text\<close> (here \<open>key\<close>), and after it
  the relevance check with its two branches.
\<close>

definition template_or_classify ::
  "env \<Rightarrow> collaborators \<Rightarrow> store \<Rightarrow> parent option \<Rightarrow> profile \<Rightarrow> incoming
     \<Rightarrow> (role \<times> str) list \<Rightarrow> str \<Rightarrow> store \<times> effect list" where
  "template_or_classify ev orc db par user_profile m history key =
     (case template_response orc key of
        Some response \<Rightarrow>
          (save_dialog_if ev db par Assistant response, [Answer (ReplyText response)])
      | None \<Rightarrow>
          (if \<not> fst (is_query_relevant_with_layout_correction
                        (is_query_relevant_ai orc) (m_text m))
           then handle_irrelevant ev db user_profile m history
           else handle_relevant ev orc db par m))"

text \<open>
  The part of the handler after the two guards (\<open># Main logic\<close> in the source): the
  history is loaded, the user's turn saved, an intent with an action dispatched.
\<close>

definition main_logic ::
  "env \<Rightarrow> collaborators \<Rightarrow> store \<Rightarrow> profile \<Rightarrow> incoming \<Rightarrow> store \<times> effect list" where
  "main_logic ev orc db user_profile m =
     (let history = load_dialog ev db (m_user_id m)
      in case get_or_create_parent ev db (m_user_id m) (m_username m) of
           (db1, par) \<Rightarrow>
             (let db2 = save_dialog_if ev db1 par User (m_text m);
                  detected_intent =
                    (case intent_recognizer orc of None \<Rightarrow> None | Some f \<Rightarrow> f (m_text m))
              in case detected_intent of
                   None \<Rightarrow>
                     template_or_classify ev orc db2 par user_profile m history (m_text m)
                 | Some i \<Rightarrow>
                     (if i \<in> set intent_to_action
                      then (save_dialog_if ev db2 par Assistant (intent_recognized_prefix @ i),
                            [CmdBook])
                      else template_or_classify ev orc db2 par user_profile m history
                             (if i = [] then m_text m else i))))"

text \<open>
  \<open>handle_text_message\<close>.  The read of the profile, which comes before the guards, may
  raise; the handler's \<open>except\<close> branch then reports to the operators and apologises.
  The store operations after the guards are modelled as succeeding.
\<close>

definition handle_text_message :: "env \<Rightarrow> collaborators \<Rightarrow> store \<Rightarrow> incoming \<Rightarrow> store \<times> effect list" where
  "handle_text_message ev orc db m =
     (case attempt ev OpGetFullParentData
             (get_full_parent_data ev db (m_user_id m) (m_username m)) of
        Inl e \<Rightarrow>
          (db, [NotifyAdminOnError (m_user_id m) (load_dialog ev db (m_user_id m)),
                Answer ErrorApology])
      | Inr (db1, found) \<Rightarrow>
          (let user_profile = (case found of None \<Rightarrow> minimal_profile | Some pr \<Rightarrow> pr)
           in if pr_is_blocked user_profile then (db1, [])
              else if pr_onboarding_completed_at user_profile = None
                   then (db1, [Answer OnboardingInvite])
                   else main_logic ev orc db1 user_profile m))"

text \<open>The handler run on the messages of a chat, one after the other.\<close>

fun handle_all :: "env \<Rightarrow> collaborators \<Rightarrow> store \<Rightarrow> incoming list \<Rightarrow> store \<times> effect list" where
  "handle_all ev orc db [] = (db, [])"
| "handle_all ev orc db (m # ms) =
     (case handle_text_message ev orc db m of
        (db1, out1) \<Rightarrow>
          (case handle_all ev orc db1 ms of (db2, out2) \<Rightarrow> (db2, out1 @ out2)))"

section \<open>Onboarding completion\<close>

text \<open>
  The \<open>user_answers\<close> dict of the FSM data.  The age is an \<open>int\<close> when
  \<open>process_child_age\<close> stored it; for a \<open>str\<close> the model keeps what \<open>int(...)\<close>
  gives (\<open>None\<close> for \<open>ValueError\<close>).
\<close>

datatype age_answer = AgeInt int | AgeStr "int option"

record answers =
  a_parent_name :: "str option"
  a_child_name :: "str option"
  a_child_age :: "age_answer option"
  a_child_interests :: "str option"
  a_parent_phone :: "str option"
  a_parent_email :: "str option"
  a_parent_contact_tg :: "str option"

definition child_age_of :: "answers \<Rightarrow> int" where
  "child_age_of a =
     (case a_child_age a of
        None \<Rightarrow> 0
      | Some (AgeInt n) \<Rightarrow> n
      | Some (AgeStr None) \<Rightarrow> 0
      | Some (AgeStr (Some n)) \<Rightarrow> n)"

text \<open>The three course names and the default child name, as code points.\<close>

definition course_junior :: str where
  "course_junior =
     [1054, 1089, 1085, 1086, 1074, 1099, 32, 1087, 1088, 1086, 1075, 1088, 1072, 1084,
      1084, 1080, 1088, 1086, 1074, 1072, 1085, 1080, 1103, 32, 40, 1084, 1083, 1072, 1076,
      1096, 1072, 1103, 32, 1075, 1088, 1091, 1087, 1087, 1072, 41]"

definition course_senior :: str where
  "course_senior =
     [1055, 1088, 1086, 1076, 1074, 1080, 1085, 1091, 1090, 1086, 1077, 32, 1087, 1088,
      1086, 1075, 1088, 1072, 1084, 1084, 1080, 1088, 1086, 1074, 1072, 1085, 1080, 1077,
      32, 40, 1089, 1090, 1072, 1088, 1096, 1072, 1103, 32, 1075, 1088, 1091, 1087, 1087,
      1072, 41]"

definition course_general :: str where
  "course_general =
     [1055, 1088, 1086, 1075, 1088, 1072, 1084, 1084, 1080, 1088, 1086, 1074, 1072, 1085,
      1080, 1077]"

definition default_child_name :: str where
  "default_child_name = [1056, 1077, 1073, 1077, 1085, 1086, 1082]"

definition course_for_age :: "int \<Rightarrow> str" where
  "course_for_age child_age =
     (if 9 \<le> child_age \<and> child_age \<le> 13 then course_junior
      else if 14 \<le> child_age \<and> child_age \<le> 17 then course_senior
      else course_general)"

definition str_or :: "str option \<Rightarrow> str \<Rightarrow> str" where
  "str_or x d = (case x of None \<Rightarrow> d | Some v \<Rightarrow> v)"

text \<open>
  \<open>finish_onboarding\<close>.  It has no \<open>try\<close>: an exception of a store call leaves the
  function, and what the earlier calls committed stays in the store.  The second
  component is the exception, or \<open>None\<close> when the final message was sent.
\<close>

definition finish_onboarding ::
  "env \<Rightarrow> store \<Rightarrow> datetime \<Rightarrow> answers \<Rightarrow> int \<Rightarrow> str option \<Rightarrow> store \<times> error option" where
  "finish_onboarding ev db now_utc a user_id uname =
     (case attempt ev OpGetOrCreateParent (get_or_create_parent ev db user_id uname) of
        Inl e \<Rightarrow> (db, Some e)
      | Inr (db1, par) \<Rightarrow>
          (let child_age = child_age_of a;
               course_name = course_for_age child_age;
               fname = str_or (a_parent_name a) [];
               ph = a_parent_phone a;
               em = a_parent_email a;
               ud = \<lparr>ud_parent_name = Some fname, ud_parent_phone = ph, ud_parent_email = em,
                     ud_parent_contact_tg = a_parent_contact_tg a,
                     ud_child_name = a_child_name a, ud_child_age = child_age,
                     ud_child_interests = a_child_interests a, ud_course_name = course_name\<rparr>
           in case par of
                None \<Rightarrow> (db1, Some AttributeError)
              | Some p \<Rightarrow>
                  (case attempt ev OpAddChildProfile
                          (add_child_profile db1 (p_id p) (str_or (a_child_name a) default_child_name)
                             child_age (a_child_interests a) (Some course_name) None) of
                     Inl e \<Rightarrow> (db1, Some e)
                   | Inr (db2, c) \<Rightarrow>
                       (case attempt ev OpCompleteOnboarding
                               (complete_onboarding_in_db db2 now_utc (p_id p) (Some fname) ph em ud) of
                          Inl e \<Rightarrow> (db2, Some e)
                        | Inr db3 \<Rightarrow> (db3, None)))))"

section \<open>Booking a slot\<close>

record created_event =
  ev_id :: "str option"
  ev_html_link :: str

text \<open>The lines of the event description \<open>book_slot\<close> builds.\<close>

datatype desc_part = DescHeader | DescUserId int | DescName str | DescTelegram str | DescPhone str

text \<open>
  The remote calendar as \<open>book_slot\<close> sees it: the busy intervals it lists at the
  re-check, whether \<open>delete_event\<close> reports success (it catches its own exceptions),
  and the event \<open>create_event\<close> returns or the exception it raises.
\<close>

record calendar =
  get_busy_slots :: provider
  delete_event :: "str \<Rightarrow> bool"
  create_event :: "datetime \<Rightarrow> datetime \<Rightarrow> desc_part list \<Rightarrow> error + created_event"

datatype sheet_status = SheetCreated | SheetRescheduled

datatype booking_effect =
  EventDeleted str
  | EventCreated datetime datetime "desc_part list"
  | SheetsAddBooking "str option" sheet_status

record booking_request =
  start_time :: datetime
  end_time :: datetime
  user_name :: str
  user_contact :: str
  user_phone :: str
  user_id :: "int option"
  cancel_event_id :: "str option"
  child_id :: "int option"
  course_name :: "str option"
  lesson_notes :: "str option"

record booking_ok =
  r_event_id :: "str option"
  r_html_link :: str
  r_start :: datetime
  r_end :: datetime
  r_cancelled_event_id :: "str option"
  r_lesson_id :: "int option"

text \<open>
  The returned dict: \<open>success\<close> true with the booking, or \<open>success\<close> false with
  \<open>error\<close> either the fixed text for an occupied slot or \<open>str(e)\<close>.
\<close>

datatype failure = SlotAlreadyTaken | ErrorText error

datatype booking_result = BookingOk booking_ok | BookingFailed failure

definition success :: "booking_result \<Rightarrow> bool" where
  "success r = (case r of BookingOk b \<Rightarrow> True | BookingFailed f \<Rightarrow> False)"

definition lesson_id :: "booking_result \<Rightarrow> int option" where
  "lesson_id r = (case r of BookingOk b \<Rightarrow> r_lesson_id b | BookingFailed f \<Rightarrow> None)"

text \<open>Python truthiness of an optional integer and of an optional string.\<close>

definition truthy_int :: "int option \<Rightarrow> bool" where
  "truthy_int x = (case x of None \<Rightarrow> False | Some v \<Rightarrow> v \<noteq> 0)"

definition truthy_str :: "str option \<Rightarrow> bool" where
  "truthy_str x = (case x of None \<Rightarrow> False | Some v \<Rightarrow> v \<noteq> [])"

definition description_parts :: "booking_request \<Rightarrow> desc_part list" where
  "description_parts req =
     [DescHeader]
     @ (if truthy_int (user_id req) then [DescUserId (the (user_id req))] else [])
     @ (if user_name req \<noteq> [] then [DescName (user_name req)] else [])
     @ (if user_contact req \<noteq> [] then [DescTelegram (user_contact req)] else [])
     @ (if user_phone req \<noteq> [] then [DescPhone (user_phone req)] else [])"

text \<open>
  The child for the lesson when \<open>child_id\<close> is not given: the parent's first child, or a
  new one with basic data.  \<open>Inl\<close> is an exception (caught by the \<open>try\<close> around the
  whole block); the store is returned as the calls before it left it.
\<close>

definition resolve_child ::
  "env \<Rightarrow> store \<Rightarrow> booking_request \<Rightarrow> parent \<Rightarrow> store \<times> (error + int option)" where
  "resolve_child ev db req p =
     (if truthy_int (child_id req) then (db, Inr (child_id req))
      else (case attempt ev OpGetChildren (get_children db (p_id p)) of
              Inl e \<Rightarrow> (db, Inl e)
            | Inr [] \<Rightarrow>
                (case attempt ev OpAddChildProfile
                        (add_child_profile db (p_id p)
                           (if user_name req \<noteq> [] then user_name req else default_child_name)
                           0 (Some []) (course_name req) (Some 0)) of
                   Inl e \<Rightarrow> (db, Inl e)
                 | Inr (db1, c) \<Rightarrow> (db1, Inr (Some (c_id c))))
            | Inr (c # cs) \<Rightarrow> (db, Inr (Some (c_id c)))))"

text \<open>
  The block \<open># Save to the DB\<close> of \<open>book_slot\<close>: the new store and \<open>lesson_id\<close>.  Every
  exception inside it is caught, logged, and leaves \<open>lesson_id = None\<close>.
\<close>

definition save_lesson ::
  "env \<Rightarrow> store \<Rightarrow> booking_request \<Rightarrow> str option \<Rightarrow> store \<times> int option" where
  "save_lesson ev db req event_id =
     (if \<not> truthy_int (user_id req) then (db, None)
      else (case attempt ev OpGetOrCreateParent
                   (get_or_create_parent ev db (the (user_id req)) (Some (user_contact req))) of
              Inl e \<Rightarrow> (db, None)
            | Inr (db1, None) \<Rightarrow> (db1, None)
            | Inr (db1, Some p) \<Rightarrow>
                (case resolve_child ev db1 req p of
                   (db2, Inl e) \<Rightarrow> (db2, None)
                 | (db2, Inr cid) \<Rightarrow>
                     (if truthy_int cid then
                        (case attempt ev OpAddTrialLesson
                                (add_trial_lesson db2 (p_id p) (the cid) event_id
                                   (start_time req) (course_name req) (lesson_notes req)) of
                           Inl e \<Rightarrow> (db2, None)
                         | Inr (db3, l) \<Rightarrow> (db3, Some (l_id l)))
                      else (db2, None)))))"

text \<open>
  \<open>book_slot\<close>: the new store, what was done to the calendar and the spreadsheet, and
  the returned dict.  \<open>sheets_service\<close> says whether the spreadsheet service exists; the
  outcome of \<open>add_booking\<close> is only logged by the source.
\<close>

definition book_slot ::
  "env \<Rightarrow> calendar \<Rightarrow> bool \<Rightarrow> store \<Rightarrow> booking_request
     \<Rightarrow> store \<times> booking_effect list \<times> booking_result" where
  "book_slot ev cal sheets_service db req =
     (let reschedule = truthy_str (cancel_event_id req);
          deleted = (reschedule \<and> delete_event cal (the (cancel_event_id req)));
          cancelled_event = (if deleted then cancel_event_id req else None);
          done_before = (if deleted then [EventDeleted (the (cancel_event_id req))] else [])
      in if \<not> is_slot_available (get_busy_slots cal) (start_time req) (end_time req)
         then (db, done_before, BookingFailed SlotAlreadyTaken)
         else (case create_event cal (start_time req) (end_time req) (description_parts req) of
                 Inl e \<Rightarrow> (db, done_before, BookingFailed (ErrorText e))
               | Inr event \<Rightarrow>
                   (let sheet = (if sheets_service
                                 then [SheetsAddBooking (ev_id event)
                                         (if reschedule then SheetRescheduled else SheetCreated)]
                                 else [])
                    in case save_lesson ev db req (ev_id event) of
                         (db1, lid) \<Rightarrow>
                           (db1,
                            done_before
                            @ [EventCreated (start_time req) (end_time req) (description_parts req)]
                            @ sheet,
                            BookingOk \<lparr>r_event_id = ev_id event, r_html_link = ev_html_link event,
                                       r_start = start_time req, r_end = end_time req,
                                       r_cancelled_event_id = cancelled_event,
                                       r_lesson_id = lid\<rparr>))))"

section \<open>Notions used in the statements\<close>

text \<open>
  A message is classified off-topic in a turn when the handler reaches the relevance
  check (no intent with an action, no template for the key) and the check says no.
\<close>

definition classified_off_topic :: "collaborators \<Rightarrow> incoming \<Rightarrow> bool" where
  "classified_off_topic orc m =
     ((case (case intent_recognizer orc of None \<Rightarrow> None | Some f \<Rightarrow> f (m_text m)) of
         None \<Rightarrow> template_response orc (m_text m) = None
       | Some i \<Rightarrow> i \<notin> set intent_to_action \<and>
                   template_response orc (if i = [] then m_text m else i) = None)
      \<and> \<not> fst (is_query_relevant_with_layout_correction (is_query_relevant_ai orc) (m_text m)))"

fun is_block_notification :: "effect \<Rightarrow> bool" where
  "is_block_notification (NotifyAdminOfBlock u h) = True"
| "is_block_notification e = False"

text \<open>How the rows after a sweep relate to the rows before it.\<close>

definition flags_after :: "int list \<Rightarrow> int list \<Rightarrow> lesson \<Rightarrow> lesson \<Rightarrow> bool" where
  "flags_after ids24 ids1 l l' =
     (l_id l' = l_id l \<and>
      (reminder_24h_sent l' \<longleftrightarrow> reminder_24h_sent l \<or> l_id l \<in> set ids24) \<and>
      (reminder_1h_sent l' \<longleftrightarrow> reminder_1h_sent l \<or> l_id l \<in> set ids1))"

fun is_event_created :: "booking_effect \<Rightarrow> bool" where
  "is_event_created (EventCreated s e d) = True"
| "is_event_created x = False"

section \<open>Fixed inputs used in the examples\<close>

text \<open>A provider that reports no busy interval for any range.\<close>

definition no_busy :: provider where
  "no_busy range_start range_end = Inr []"

text \<open>A provider that reports one event, from 10:00 to 11:00 of day 0, for any range.\<close>

definition lesson_ten_to_eleven :: provider where
  "lesson_ten_to_eleven range_start range_end = Inr [\<lparr>b_start = hours 10, b_end = hours 11\<rparr>]"

definition default_config :: config where
  "default_config = \<lparr>START_HOUR = 9, END_HOUR = 18, SLOT_DURATION = 60\<rparr>"

text \<open>An environment with a configured store in which no operation raises.\<close>

definition no_fault :: "db_op \<Rightarrow> bool" where
  "no_fault op = False"

definition live_env :: env where
  "live_env = \<lparr>database_url = True, db_raises = no_fault\<rparr>"

text \<open>Collaborators that find no intent, no template, and classify every text as off-topic.\<close>

definition no_template :: "str \<Rightarrow> str option" where
  "no_template key = None"

definition says_no :: "str \<Rightarrow> bool" where
  "says_no question = False"

definition no_rag :: "str \<Rightarrow> rag_outcome" where
  "no_rag question = NoRetriever"

definition off_topic_collaborators :: collaborators where
  "off_topic_collaborators =
     \<lparr>intent_recognizer = None, template_response = no_template,
      is_query_relevant_ai = says_no, rag = no_rag\<rparr>"

text \<open>A store with one onboarded parent (Telegram id 42, row id 1) and nothing else.\<close>

definition demo_parent :: parent where
  "demo_parent = (new_parent 1 None)\<lparr>onboarding_completed_at := Some 0\<rparr>"

definition demo_store :: store where
  "demo_store =
     \<lparr>parents = [42 \<mapsto> demo_parent], children = [], lessons = [], dialog_history = [],
      next_parent_id = 2, next_child_id = 1, next_lesson_id = 1\<rparr>"

text \<open>The same store with the parent blocked at counter 3.\<close>

definition blocked_store :: store where
  "blocked_store =
     demo_store\<lparr>parents := [42 \<mapsto> demo_parent\<lparr>is_blocked := True, irrelevant_count := 3\<rparr>]\<rparr>"

definition demo_message :: incoming where
  "demo_message = \<lparr>m_user_id = 42, m_username = None, m_text = ascii ''weather''\<rparr>"

text \<open>
  A calendar on which a concurrent booking already occupies exactly the requested window,
  and one with no events; both accept an insert and a delete.
\<close>

definition taken_provider :: provider where
  "taken_provider range_start range_end = Inr [\<lparr>b_start = range_start, b_end = range_end\<rparr>]"

definition demo_event :: created_event where
  "demo_event = \<lparr>ev_id = Some (ascii ''evt1''), ev_html_link = []\<rparr>"

definition accept_event :: "datetime \<Rightarrow> datetime \<Rightarrow> desc_part list \<Rightarrow> error + created_event" where
  "accept_event s e d = Inr demo_event"

definition delete_ok :: "str \<Rightarrow> bool" where
  "delete_ok event_id = True"

definition busy_calendar :: calendar where
  "busy_calendar =
     \<lparr>get_busy_slots = taken_provider, delete_event = delete_ok, create_event = accept_event\<rparr>"

definition free_calendar :: calendar where
  "free_calendar =
     \<lparr>get_busy_slots = no_busy, delete_event = delete_ok, create_event = accept_event\<rparr>"

definition demo_request :: booking_request where
  "demo_request =
     \<lparr>start_time = hours 10, end_time = hours 11, user_name = ascii ''Anna'',
      user_contact = ascii ''anna'', user_phone = [], user_id = Some 42,
      cancel_event_id = None, child_id = None, course_name = None, lesson_notes = None\<rparr>"

text \<open>An environment without \<open>DATABASE_URL\<close>, and one in which inserting a lesson raises.\<close>

definition offline_env :: env where
  "offline_env = \<lparr>database_url = False, db_raises = no_fault\<rparr>"

definition lesson_insert_fails :: "db_op \<Rightarrow> bool" where
  "lesson_insert_fails op = (op = OpAddTrialLesson)"

definition failing_env :: env where
  "failing_env = \<lparr>database_url = True, db_raises = lesson_insert_fails\<rparr>"

text \<open>
  A store whose only parent (Telegram id 42, row id 1) has not been onboarded, the answers
  of a questionnaire, and an environment in which the profile update raises.
\<close>

definition fresh_store :: store where
  "fresh_store =
     \<lparr>parents = [42 \<mapsto> new_parent 1 None], children = [], lessons = [], dialog_history = [],
      next_parent_id = 2, next_child_id = 1, next_lesson_id = 1\<rparr>"

definition demo_answers :: answers where
  "demo_answers =
     \<lparr>a_parent_name = Some (ascii ''Anna''), a_child_name = Some (ascii ''Ivan''),
      a_child_age = Some (AgeInt 10), a_child_interests = Some (ascii ''robots''),
      a_parent_phone = Some (ascii ''+70000000000''), a_parent_email = None,
      a_parent_contact_tg = None\<rparr>"

definition profile_update_fails :: "db_op \<Rightarrow> bool" where
  "profile_update_fails op = (op = OpCompleteOnboarding)"

definition broken_env :: env where
  "broken_env = \<lparr>database_url = True, db_raises = profile_update_fails\<rparr>"

text \<open>
  A planned lesson (row id 7) scheduled at a given time, with no reminder sent yet; a
  bot whose \<open>send_message\<close> always raises (the user has blocked the bot), and one that
  always delivers.
\<close>

definition lesson_at :: "datetime \<Rightarrow> lesson" where
  "lesson_at t =
     \<lparr>l_id = 7, l_parent_id = 1, l_child_id = 1, l_event_id = None, scheduled_at = t,
      status = PLANNED, l_course_name = None, l_notes = None,
      reminder_24h_sent = False, reminder_1h_sent = False\<rparr>"





text \<open>The text \<open>ab\<close> followed by U+044B: two Latin letters and one Cyrillic letter.\<close>

definition two_to_one :: str where
  "two_to_one = [97, 98, 1099]"

section \<open>Properties of the slot computation\<close>

declare scan_slots.simps [simp del]

lemma is_busy_iff:
  "is_busy s e bs \<longleftrightarrow> (\<exists>b \<in> set bs. s < b_end b \<and> e > b_start b)"
  by (induction bs) auto

lemma no_overlap_iff:
  "no_overlap s e bs \<longleftrightarrow> \<not> (\<exists>b \<in> set bs. s < b_end b \<and> e > b_start b)"
  by (induction bs) auto

lemma slot_interval_pos: "0 < slot_interval"
  by (simp add: slot_interval_def minutes_def usec_per_minute_def)

text \<open>
  Membership in the list one day's scan produces: the start is a scan position before the
  end of the day, the slot has the configured length and ends within the day, and the
  inner loop found no overlapping busy interval.
\<close>

lemma scan_slots_mem:
  "x \<in> set (scan_slots c e d B) \<longleftrightarrow>
     (\<exists>k::nat. s_start x = c + int k * slot_interval) \<and> s_start x < e \<and>
     s_end x = s_start x + minutes d \<and> s_end x \<le> e \<and>
     \<not> is_busy (s_start x) (s_end x) B"
proof (induction c e d B rule: scan_slots.induct)
  case (1 c e d B)
  show ?case
  proof (cases "c < e")
    case False
    then have "scan_slots c e d B = []"
      by (simp add: scan_slots.simps)
    moreover have "\<not> ((\<exists>k::nat. s_start x = c + int k * slot_interval) \<and> s_start x < e)"
    proof
      assume "(\<exists>k::nat. s_start x = c + int k * slot_interval) \<and> s_start x < e"
      then obtain k :: nat where k: "s_start x = c + int k * slot_interval" and lt: "s_start x < e"
        by blast
      have "0 \<le> int k * slot_interval" using slot_interval_pos by simp
      with k lt False show False by linarith
    qed
    ultimately show ?thesis by auto
  next
    case True
    show ?thesis
    proof (cases "c + minutes d > e")
      case over: True
      then have "scan_slots c e d B = []"
        using True by (simp add: scan_slots.simps Let_def)
      moreover have "\<not> ((\<exists>k::nat. s_start x = c + int k * slot_interval) \<and>
          s_end x = s_start x + minutes d \<and> s_end x \<le> e)"
      proof
        assume "(\<exists>k::nat. s_start x = c + int k * slot_interval) \<and>
          s_end x = s_start x + minutes d \<and> s_end x \<le> e"
        then obtain k :: nat where k: "s_start x = c + int k * slot_interval"
          and en: "s_end x = s_start x + minutes d" and le: "s_end x \<le> e"
          by blast
        have "0 \<le> int k * slot_interval" using slot_interval_pos by simp
        with k en le over show False by linarith
      qed
      ultimately show ?thesis by auto
    next
      case fits: False
      have IH: "x \<in> set (scan_slots (c + slot_interval) e d B) \<longleftrightarrow>
         (\<exists>k::nat. s_start x = c + slot_interval + int k * slot_interval) \<and> s_start x < e \<and>
         s_end x = s_start x + minutes d \<and> s_end x \<le> e \<and>
         \<not> is_busy (s_start x) (s_end x) B"
        using "1.IH"[OF True refl] fits by simp
      have unfold: "scan_slots c e d B =
          (if \<not> is_busy c (c + minutes d) B then [\<lparr>s_start = c, s_end = c + minutes d\<rparr>] else [])
          @ scan_slots (c + slot_interval) e d B"
        using True fits by (subst scan_slots.simps) (simp add: Let_def)
      have shift: "(\<exists>k::nat. s_start x = c + int k * slot_interval) \<longleftrightarrow>
          s_start x = c \<or> (\<exists>k::nat. s_start x = c + slot_interval + int k * slot_interval)"
      proof
        assume "\<exists>k::nat. s_start x = c + int k * slot_interval"
        then obtain k :: nat where k: "s_start x = c + int k * slot_interval" by blast
        show "s_start x = c \<or> (\<exists>k::nat. s_start x = c + slot_interval + int k * slot_interval)"
        proof (cases k)
          case 0
          with k show ?thesis by simp
        next
          case (Suc j)
          with k have "s_start x = c + slot_interval + int j * slot_interval"
            by (simp add: algebra_simps)
          then show ?thesis by blast
        qed
      next
        assume "s_start x = c \<or> (\<exists>k::nat. s_start x = c + slot_interval + int k * slot_interval)"
        then show "\<exists>k::nat. s_start x = c + int k * slot_interval"
        proof
          assume "s_start x = c"
          then have "s_start x = c + int 0 * slot_interval" by simp
          then show ?thesis by blast
        next
          assume "\<exists>k::nat. s_start x = c + slot_interval + int k * slot_interval"
          then obtain j :: nat where "s_start x = c + slot_interval + int j * slot_interval" by blast
          then have "s_start x = c + int (Suc j) * slot_interval" by (simp add: algebra_simps)
          then show ?thesis by blast
        qed
      qed
      have head: "x = \<lparr>s_start = c, s_end = c + minutes d\<rparr> \<longleftrightarrow>
          s_start x = c \<and> s_end x = s_start x + minutes d"
        by (cases x) auto
      show ?thesis
        unfolding unfold shift using IH head True fits by auto
    qed
  qed
qed

lemma midnight_mod: "midnight dt mod usec_per_day = 0"
  by (simp add: midnight_def minus_mod_eq_mult_div)

lemma midnight_plus_hours:
  assumes "0 \<le> h" "h \<le> 23"
  shows "midnight (midnight dt + hours h) = midnight dt"
proof -
  have "(midnight dt + hours h) mod usec_per_day = hours h mod usec_per_day"
    using midnight_mod [of dt] by (metis add_cancel_left_left mod_add_left_eq)
  moreover have "0 \<le> hours h" "hours h < usec_per_day"
    using assms by (simp_all add: hours_def usec_per_hour_def usec_per_day_def)
  ultimately have "(midnight dt + hours h) mod usec_per_day = hours h" by simp
  then show ?thesis by (simp add: midnight_def [of "midnight dt + hours h"])
qed

text \<open>
  With a one-day horizon, valid hours and a provider that answers, \<open>get_free_slots\<close>
  returns what the scan of that day produces.
\<close>

lemma get_free_slots_one_day:
  assumes "0 \<le> int_or start_hour (START_HOUR cfg)" "int_or start_hour (START_HOUR cfg) \<le> 23"
    and "0 \<le> int_or end_hour (END_HOUR cfg)" "int_or end_hour (END_HOUR cfg) \<le> 23"
    and "prov (midnight (now + days (if skip_today then 1 else 0))
                 + hours (int_or start_hour (START_HOUR cfg)))
              (midnight (now + days (if skip_today then 1 else 0))
                 + hours (int_or end_hour (END_HOUR cfg))) = Inr B"
  shows "get_free_slots cfg prov now 1 start_hour end_hour skip_today =
     Inr (scan_slots
            (midnight (now + days (if skip_today then 1 else 0))
               + hours (int_or start_hour (START_HOUR cfg)))
            (midnight (now + days (if skip_today then 1 else 0))
               + hours (int_or end_hour (END_HOUR cfg)))
            (SLOT_DURATION cfg) B)"
  using assms
  by (simp add: get_free_slots_def day_slots_def replace_hour_def midnight_plus_hours Let_def)

text \<open>
  C1.  In the slot generation of \<open>get_free_slots\<close> for a day from \<open>day_start\<close> to
  \<open>end_of_day\<close> with busy intervals \<open>B\<close>, the slot from \<open>s\<close> to \<open>e\<close> is reported free
  exactly when it is a candidate (\<open>s\<close> is a scan position \<open>day_start + k * 30 min\<close>
  before the end of the day and \<open>e\<close> is \<open>s\<close> plus the slot duration), no busy interval
  \<open>b\<close> has \<open>s < b.end\<close> and \<open>e > b.start\<close>, and \<open>e\<close> does not exceed the end of the
  day.  For a one-day horizon with valid hours and a provider that answers \<open>B\<close>, what
  \<open>get_free_slots\<close> returns is this list.  \<open>is_slot_available\<close> of the booking service
  is decided by the same overlap predicate on the intervals the provider lists (and is
  false when the provider fails).
\<close>

theorem free_slot_iff_no_overlap:
  "(\<lparr>s_start = s, s_end = e\<rparr> \<in> set (scan_slots day_start end_of_day slot_duration B) \<longleftrightarrow>
      ((\<exists>k::nat. s = day_start + int k * slot_interval) \<and> s < end_of_day \<and>
       e = s + minutes slot_duration) \<and>
      \<not> (\<exists>b \<in> set B. s < b_end b \<and> e > b_start b) \<and> e \<le> end_of_day)
   \<and> (0 \<le> int_or start_hour (START_HOUR cfg) \<and> int_or start_hour (START_HOUR cfg) \<le> 23 \<and>
       0 \<le> int_or end_hour (END_HOUR cfg) \<and> int_or end_hour (END_HOUR cfg) \<le> 23 \<and>
       prov (midnight (now + days (if skip_today then 1 else 0))
               + hours (int_or start_hour (START_HOUR cfg)))
            (midnight (now + days (if skip_today then 1 else 0))
               + hours (int_or end_hour (END_HOUR cfg))) = Inr B
       \<longrightarrow> get_free_slots cfg prov now 1 start_hour end_hour skip_today =
             Inr (scan_slots
                    (midnight (now + days (if skip_today then 1 else 0))
                       + hours (int_or start_hour (START_HOUR cfg)))
                    (midnight (now + days (if skip_today then 1 else 0))
                       + hours (int_or end_hour (END_HOUR cfg)))
                    (SLOT_DURATION cfg) B))
   \<and> (is_slot_available prov s e \<longleftrightarrow>
      (\<exists>B'. prov s e = Inr B' \<and> \<not> (\<exists>b \<in> set B'. s < b_end b \<and> e > b_start b)))"
proof (intro conjI impI)
  show "\<lparr>s_start = s, s_end = e\<rparr> \<in> set (scan_slots day_start end_of_day slot_duration B) \<longleftrightarrow>
      ((\<exists>k::nat. s = day_start + int k * slot_interval) \<and> s < end_of_day \<and>
       e = s + minutes slot_duration) \<and>
      \<not> (\<exists>b \<in> set B. s < b_end b \<and> e > b_start b) \<and> e \<le> end_of_day"
    unfolding scan_slots_mem is_busy_iff by auto
next
  assume "0 \<le> int_or start_hour (START_HOUR cfg) \<and> int_or start_hour (START_HOUR cfg) \<le> 23 \<and>
       0 \<le> int_or end_hour (END_HOUR cfg) \<and> int_or end_hour (END_HOUR cfg) \<le> 23 \<and>
       prov (midnight (now + days (if skip_today then 1 else 0))
               + hours (int_or start_hour (START_HOUR cfg)))
            (midnight (now + days (if skip_today then 1 else 0))
               + hours (int_or end_hour (END_HOUR cfg))) = Inr B"
  then show "get_free_slots cfg prov now 1 start_hour end_hour skip_today =
             Inr (scan_slots
                    (midnight (now + days (if skip_today then 1 else 0))
                       + hours (int_or start_hour (START_HOUR cfg)))
                    (midnight (now + days (if skip_today then 1 else 0))
                       + hours (int_or end_hour (END_HOUR cfg)))
                    (SLOT_DURATION cfg) B)"
    by (intro get_free_slots_one_day) simp_all
next
  show "is_slot_available prov s e \<longleftrightarrow>
      (\<exists>B'. prov s e = Inr B' \<and> \<not> (\<exists>b \<in> set B'. s < b_end b \<and> e > b_start b))"
    by (cases "prov s e") (simp_all add: is_slot_available_def no_overlap_iff)
qed

theorem free_slot_iff_no_overlap_witness:
  "get_free_slots default_config lesson_ten_to_eleven 0 1 None None False
     = Inr (scan_slots (hours 9) (hours 18) 60 [\<lparr>b_start = hours 10, b_end = hours 11\<rparr>])
   \<and> \<lparr>s_start = hours 9, s_end = hours 10\<rparr>
     \<in> set (scan_slots (hours 9) (hours 18) 60 [\<lparr>b_start = hours 10, b_end = hours 11\<rparr>])
   \<and> \<lparr>s_start = hours 9 + minutes 30, s_end = hours 10 + minutes 30\<rparr>
     \<notin> set (scan_slots (hours 9) (hours 18) 60 [\<lparr>b_start = hours 10, b_end = hours 11\<rparr>])
   \<and> is_slot_available lesson_ten_to_eleven (hours 9) (hours 10)
   \<and> \<not> is_slot_available lesson_ten_to_eleven (hours 10 + minutes 30) (hours 11 + minutes 30)"
proof -
  note u = hours_def minutes_def usec_per_hour_def usec_per_minute_def
  have m0: "midnight (days 0) = 0"
    by (simp add: midnight_def days_def)
  have k0: "\<exists>k::nat. hours 9 = hours 9 + int k * slot_interval"
    by (rule exI[of _ 0]) simp
  have g: "get_free_slots default_config lesson_ten_to_eleven 0 1 None None False
     = Inr (scan_slots (hours 9) (hours 18) 60 [\<lparr>b_start = hours 10, b_end = hours 11\<rparr>])"
    using free_slot_iff_no_overlap [of 0 0 0 0 0 "[\<lparr>b_start = hours 10, b_end = hours 11\<rparr>]"
        None default_config None lesson_ten_to_eleven 0 False]
    by (simp add: default_config_def int_or_def lesson_ten_to_eleven_def m0)
  have a: "\<lparr>s_start = hours 9, s_end = hours 10\<rparr>
     \<in> set (scan_slots (hours 9) (hours 18) 60 [\<lparr>b_start = hours 10, b_end = hours 11\<rparr>])"
    using free_slot_iff_no_overlap [of "hours 9" "hours 10" "hours 9" "hours 18" 60
        "[\<lparr>b_start = hours 10, b_end = hours 11\<rparr>]"] k0
    by (simp add: u)
  have b: "\<lparr>s_start = hours 9 + minutes 30, s_end = hours 10 + minutes 30\<rparr>
     \<notin> set (scan_slots (hours 9) (hours 18) 60 [\<lparr>b_start = hours 10, b_end = hours 11\<rparr>])"
    using free_slot_iff_no_overlap [of "hours 9 + minutes 30" "hours 10 + minutes 30" "hours 9"
        "hours 18" 60 "[\<lparr>b_start = hours 10, b_end = hours 11\<rparr>]"]
    by (simp add: u)
  have c: "is_slot_available lesson_ten_to_eleven (hours 9) (hours 10)"
    using free_slot_iff_no_overlap [of "hours 9" "hours 10" 0 0 0 "[]" None default_config None
        lesson_ten_to_eleven]
    by (simp add: lesson_ten_to_eleven_def u)
  have d: "\<not> is_slot_available lesson_ten_to_eleven (hours 10 + minutes 30) (hours 11 + minutes 30)"
    using free_slot_iff_no_overlap [of "hours 10 + minutes 30" "hours 11 + minutes 30" 0 0 0 "[]"
        None default_config None lesson_ten_to_eleven]
    by (simp add: lesson_ten_to_eleven_def u)
  from g a b c d show ?thesis by blast
qed

section \<open>The free slots of a day without busy intervals\<close>

lemma scan_slots_free_step:
  "c < e \<Longrightarrow> c + minutes d \<le> e \<Longrightarrow>
   scan_slots c e d [] =
     \<lparr>s_start = c, s_end = c + minutes d\<rparr> # scan_slots (c + slot_interval) e d []"
  by (subst scan_slots.simps) (simp add: Let_def)

lemma scan_slots_stop:
  "e < c + minutes d \<Longrightarrow> scan_slots c e d B = []"
  by (subst scan_slots.simps) (simp add: Let_def)

lemma scan_nine_to_six:
  "scan_slots (m + hours 9) (m + hours 18) 60 [] =
     map (\<lambda>k. \<lparr>s_start = m + hours 9 + int k * minutes 30,
                s_end = m + hours 10 + int k * minutes 30\<rparr>) [0..<17]"
  by (simp add: scan_slots_free_step scan_slots_stop slot_interval_def hours_def minutes_def
      usec_per_hour_def usec_per_minute_def upt_rec)

lemma day_slots_nine_to_six:
  assumes "prov (midnight (now + days off) + hours 9) (midnight (now + days off) + hours 18) = Inr []"
  shows "day_slots prov now 9 18 60 off =
     Inr (map (\<lambda>k. \<lparr>s_start = midnight (now + days off) + hours 9 + int k * minutes 30,
                     s_end = midnight (now + days off) + hours 10 + int k * minutes 30\<rparr>) [0..<17])"
proof -
  have "replace_hour (now + days off) 9 = Inr (midnight (now + days off) + hours 9)"
    by (simp add: replace_hour_def)
  moreover have "replace_hour (midnight (now + days off) + hours 9) 18 =
      Inr (midnight (now + days off) + hours 18)"
    by (simp add: replace_hour_def midnight_plus_hours)
  ultimately show ?thesis
    using assms by (simp add: day_slots_def scan_nine_to_six)
qed

lemma free_slots_nine_to_six:
  assumes "SLOT_DURATION cfg = 60"
    and "int_or start_hour (START_HOUR cfg) = 9"
    and "int_or end_hour (END_HOUR cfg) = 18"
    and "\<forall>range_start range_end. prov range_start range_end = Inr []"
  shows "get_free_slots cfg prov now 1 start_hour end_hour skip_today =
     Inr (map (\<lambda>k. \<lparr>s_start = midnight (now + days (if skip_today then 1 else 0))
                                 + hours 9 + int k * minutes 30,
                     s_end = midnight (now + days (if skip_today then 1 else 0))
                                 + hours 10 + int k * minutes 30\<rparr>) [0..<17])"
proof -
  have "day_slots prov now 9 18 60 off =
     Inr (map (\<lambda>k. \<lparr>s_start = midnight (now + days off) + hours 9 + int k * minutes 30,
                     s_end = midnight (now + days off) + hours 10 + int k * minutes 30\<rparr>) [0..<17])"
    for off
    using assms(4) by (intro day_slots_nine_to_six) simp
  then show ?thesis
    using assms(1-3) by (simp add: get_free_slots_def Let_def)
qed

text \<open>
  C2, as the spec states it, fails: with no busy intervals, working hours 09:00-18:00 and
  60-minute slots, one day gives 17 slots, not 9, and the second starts before the first
  ends.  (The clock reads 0 here, so the day searched, with \<open>skip_today\<close>, is day 1.)
\<close>

theorem nine_slots_counterexample:
  "length (projr (get_free_slots default_config no_busy 0 1 None None True)) = 17
   \<and> s_start (projr (get_free_slots default_config no_busy 0 1 None None True) ! 1)
       < s_end (projr (get_free_slots default_config no_busy 0 1 None None True) ! 0)"
proof -
  have "get_free_slots default_config no_busy 0 1 None None True =
     Inr (map (\<lambda>k. \<lparr>s_start = midnight (0 + days (if True then 1 else 0))
                                 + hours 9 + int k * minutes 30,
                     s_end = midnight (0 + days (if True then 1 else 0))
                                 + hours 10 + int k * minutes 30\<rparr>) [0..<17])"
    by (rule free_slots_nine_to_six) (simp_all add: default_config_def int_or_def no_busy_def)
  then show ?thesis
    by (simp add: hours_def minutes_def usec_per_hour_def usec_per_minute_def)
qed

text \<open>
  C2, amended.  With no busy intervals reported, working hours 09:00-18:00 and a
  60-minute slot duration, the free-slot computation for a one-day horizon yields exactly
  17 slots: slot \<open>k\<close> (for \<open>k = 0, ..., 16\<close>) starts at 09:00 plus \<open>k\<close> times 30
  minutes of the day searched and lasts 60 minutes.  The first starts at 09:00, the last
  ends at 18:00, and consecutive slots overlap by 30 minutes.
\<close>

theorem seventeen_half_hourly_slots:
  assumes "SLOT_DURATION cfg = 60"
    and "int_or start_hour (START_HOUR cfg) = 9"
    and "int_or end_hour (END_HOUR cfg) = 18"
    and "\<forall>range_start range_end. prov range_start range_end = Inr []"
  shows "get_free_slots cfg prov now 1 start_hour end_hour skip_today =
     Inr (map (\<lambda>k. \<lparr>s_start = midnight (now + days (if skip_today then 1 else 0))
                                 + hours 9 + int k * minutes 30,
                     s_end = midnight (now + days (if skip_today then 1 else 0))
                                 + hours 10 + int k * minutes 30\<rparr>) [0..<17])"
  using assms by (rule free_slots_nine_to_six)

theorem seventeen_half_hourly_slots_witness:
  "get_free_slots default_config no_busy (days 3 + hours 15) 1 None None True =
     Inr (map (\<lambda>k. \<lparr>s_start = days 4 + hours 9 + int k * minutes 30,
                     s_end = days 4 + hours 10 + int k * minutes 30\<rparr>) [0..<17])"
proof -
  have m: "midnight (days 3 + hours 15 + days 1) = days 4"
    by (simp add: midnight_def days_def hours_def usec_per_day_def usec_per_hour_def)
  have "SLOT_DURATION default_config = 60"
    and "int_or None (START_HOUR default_config) = 9"
    and "int_or None (END_HOUR default_config) = 18"
    and "\<forall>range_start range_end. no_busy range_start range_end = Inr []"
    by (simp_all add: default_config_def int_or_def no_busy_def)
  from seventeen_half_hourly_slots [OF this, of "days 3 + hours 15" True]
  show ?thesis by (simp add: m)
qed

section \<open>Moderation: escalation on off-topic messages\<close>

lemma IRRELEVANT_QUERY_LIMIT_3: "IRRELEVANT_QUERY_LIMIT = 3"
  by (simp add: IRRELEVANT_QUERY_LIMIT_def)

lemma main_logic_off_topic:
  assumes "classified_off_topic orc m"
  shows "main_logic ev orc db user_profile m =
     (case get_or_create_parent ev db (m_user_id m) (m_username m) of
        (db1, par) \<Rightarrow>
          handle_irrelevant ev (save_dialog_if ev db1 par User (m_text m)) user_profile m
            (load_dialog ev db (m_user_id m)))"
  using assms
  by (auto simp: main_logic_def classified_off_topic_def template_or_classify_def Let_def
      split: option.splits prod.splits)

text \<open>One off-topic turn of an onboarded, unblocked user, in closed form.\<close>

lemma off_topic_step:
  assumes ev: "database_url ev" "\<not> db_raises ev OpGetFullParentData"
    and p: "parents db (m_user_id m) = Some p"
    and ok: "\<not> is_blocked p" "onboarding_completed_at p \<noteq> None"
    and off: "classified_off_topic orc m"
  shows "handle_text_message ev orc db m =
     (let n = irrelevant_count p + 1;
          db2 = (save_dialog ev db (p_id p) User (m_text m))
                  \<lparr>parents := (parents db)(m_user_id m \<mapsto> p\<lparr>irrelevant_count := n\<rparr>)\<rparr>
      in if n = 1 then (db2, [Answer SoftNudge])
         else if n < 3 then (db2, [Answer HandoffOffer])
         else (block_user db2 (Some (p_id p)),
               [Answer BlockedNotice,
                NotifyAdminOfBlock (m_user_id m) (load_dialog ev db (m_user_id m))]))"
  using ev p ok
  by (auto simp: handle_text_message_def attempt_def get_full_parent_data_def profile_of_def
      main_logic_off_topic [OF off] get_or_create_parent_def save_dialog_if_def
      handle_irrelevant_def increment_irrelevant_count_def save_dialog_def Let_def
      IRRELEVANT_QUERY_LIMIT_def)

lemma blocked_step:
  assumes "database_url ev" "\<not> db_raises ev OpGetFullParentData"
    and "parents db (m_user_id m) = Some p" "is_blocked p"
  shows "handle_text_message ev orc db m = (db, [])"
  using assms
  by (simp add: handle_text_message_def attempt_def get_full_parent_data_def profile_of_def)

lemma blocked_all:
  assumes "database_url ev" "\<not> db_raises ev OpGetFullParentData"
    and "parents db uid = Some p" "is_blocked p"
    and "\<forall>m \<in> set ms. m_user_id m = uid"
  shows "handle_all ev orc db ms = (db, [])"
  using assms(5)
proof (induction ms)
  case Nil
  show ?case by simp
next
  case (Cons m ms)
  then have "m_user_id m = uid" by simp
  with assms(1-4) have "handle_text_message ev orc db m = (db, [])"
    by (intro blocked_step) auto
  with Cons show ?case by simp
qed

lemma handle_all_append:
  "handle_all ev orc db (xs @ ys) =
     (case handle_all ev orc db xs of
        (db1, out1) \<Rightarrow> (case handle_all ev orc db1 ys of (db2, out2) \<Rightarrow> (db2, out1 @ out2)))"
  by (induction xs arbitrary: db) (auto split: prod.splits)

text \<open>
  Scenario E: three consecutive off-topic messages of a user whose counter is 0 give the
  nudge, the hand-off offer, and then the block with one notification of the operators.
\<close>

lemma scenario_E:
  assumes ev: "database_url ev" "\<not> db_raises ev OpGetFullParentData"
    and p: "parents db uid = Some p"
    and ok: "\<not> is_blocked p" "onboarding_completed_at p \<noteq> None"
    and zero: "irrelevant_count p = 0"
    and ids: "m_user_id m1 = uid" "m_user_id m2 = uid" "m_user_id m3 = uid"
    and off: "classified_off_topic orc m1" "classified_off_topic orc m2" "classified_off_topic orc m3"
  shows "\<exists>db' h. handle_all ev orc db [m1, m2, m3] =
           (db', [Answer SoftNudge, Answer HandoffOffer, Answer BlockedNotice,
                  NotifyAdminOfBlock uid h])
         \<and> parents db' uid = Some (p\<lparr>irrelevant_count := 3, is_blocked := True\<rparr>)"
proof -
  define p1 where "p1 = p\<lparr>irrelevant_count := 1\<rparr>"
  define db1 where "db1 = (save_dialog ev db (p_id p) User (m_text m1))
                  \<lparr>parents := (parents db)(uid \<mapsto> p1)\<rparr>"
  define p2 where "p2 = p\<lparr>irrelevant_count := 2\<rparr>"
  define db2 where "db2 = (save_dialog ev db1 (p_id p) User (m_text m2))
                  \<lparr>parents := (parents db1)(uid \<mapsto> p2)\<rparr>"
  define p3 where "p3 = p\<lparr>irrelevant_count := 3\<rparr>"
  define db3 where "db3 = (save_dialog ev db2 (p_id p) User (m_text m3))
                  \<lparr>parents := (parents db2)(uid \<mapsto> p3)\<rparr>"
  have s1: "handle_text_message ev orc db m1 = (db1, [Answer SoftNudge])"
    using off_topic_step [OF ev _ ok off(1), of db] p ids(1) zero
    by (simp add: db1_def p1_def Let_def)
  have q1: "parents db1 (m_user_id m2) = Some p1" "\<not> is_blocked p1"
      "onboarding_completed_at p1 \<noteq> None" "irrelevant_count p1 = 1" "p_id p1 = p_id p"
    using ok ids by (simp_all add: db1_def p1_def)
  have s2: "handle_text_message ev orc db1 m2 = (db2, [Answer HandoffOffer])"
    using off_topic_step [OF ev q1(1-3) off(2)] q1(4,5) ids(2)
    by (simp add: db2_def p2_def p1_def Let_def)
  have q2: "parents db2 (m_user_id m3) = Some p2" "\<not> is_blocked p2"
      "onboarding_completed_at p2 \<noteq> None" "irrelevant_count p2 = 2" "p_id p2 = p_id p"
    using ok ids by (simp_all add: db2_def p2_def)
  have s3: "handle_text_message ev orc db2 m3 =
      (block_user db3 (Some (p_id p)),
       [Answer BlockedNotice, NotifyAdminOfBlock uid (load_dialog ev db2 uid)])"
    using off_topic_step [OF ev q2(1-3) off(3)] q2(4,5) ids(3)
    by (simp add: db3_def p3_def p2_def Let_def)
  have fin: "parents (block_user db3 (Some (p_id p))) uid =
      Some (p\<lparr>irrelevant_count := 3, is_blocked := True\<rparr>)"
    by (simp add: block_user_def update_parent_by_id_def db3_def p3_def)
  show ?thesis
    using s1 s2 s3 fin by simp
qed

text \<open>After the block, further messages of the user add no notification.\<close>

lemma scenario_E_then_silence:
  assumes ev: "database_url ev" "\<not> db_raises ev OpGetFullParentData"
    and p: "parents db uid = Some p"
    and ok: "\<not> is_blocked p" "onboarding_completed_at p \<noteq> None"
    and zero: "irrelevant_count p = 0"
    and ids: "m_user_id m1 = uid" "m_user_id m2 = uid" "m_user_id m3 = uid"
    and off: "classified_off_topic orc m1" "classified_off_topic orc m2" "classified_off_topic orc m3"
    and later: "\<forall>m \<in> set ms. m_user_id m = uid"
  shows "\<exists>db' out. handle_all ev orc db ([m1, m2, m3] @ ms) = (db', out)
         \<and> parents db' uid = Some (p\<lparr>irrelevant_count := 3, is_blocked := True\<rparr>)
         \<and> length (filter is_block_notification out) = 1"
proof -
  from scenario_E [OF ev p ok zero ids off]
  obtain db' h where run: "handle_all ev orc db [m1, m2, m3] =
           (db', [Answer SoftNudge, Answer HandoffOffer, Answer BlockedNotice,
                  NotifyAdminOfBlock uid h])"
    and fin: "parents db' uid = Some (p\<lparr>irrelevant_count := 3, is_blocked := True\<rparr>)"
    by blast
  have "handle_all ev orc db' ms = (db', [])"
    using blocked_all [OF ev fin _ later] by simp
  then have "handle_all ev orc db ([m1, m2, m3] @ ms) =
      (db', [Answer SoftNudge, Answer HandoffOffer, Answer BlockedNotice,
             NotifyAdminOfBlock uid h])"
    unfolding handle_all_append run by simp
  with fin show ?thesis by simp
qed

lemma classifier_no_twice:
  "\<not> classify q \<Longrightarrow> \<not> classify (to_russian_layout q) \<Longrightarrow>
   \<not> fst (is_query_relevant_with_layout_correction classify q)"
  by (simp add: is_query_relevant_with_layout_correction_def Let_def)

lemma demo_message_off_topic: "classified_off_topic off_topic_collaborators demo_message"
  by (simp add: classified_off_topic_def off_topic_collaborators_def no_template_def
      classifier_no_twice says_no_def)

text \<open>
  C3.  For a user (onboarded, not blocked, store available) whose message is classified
  off-topic, the handler increments the profile's counter and, by the resulting count:
  at 1 sends the soft nudge; strictly between 1 and the limit offers the human hand-off;
  at the limit or above sets \<open>is_blocked\<close> and emits exactly one operator notification.
  The limit is 3.  Three consecutive off-topic messages from counter 0 end with the
  profile blocked and exactly one operator notification, also when more messages follow.
\<close>

theorem off_topic_escalation:
  assumes ev: "database_url ev" "\<not> db_raises ev OpGetFullParentData"
    and p: "parents db (m_user_id m) = Some p"
    and ok: "\<not> is_blocked p" "onboarding_completed_at p \<noteq> None"
    and off: "classified_off_topic orc m"
  shows "(\<exists>db' out p'. handle_text_message ev orc db m = (db', out) \<and>
            parents db' (m_user_id m) = Some p' \<and>
            irrelevant_count p' = irrelevant_count p + 1 \<and>
            (irrelevant_count p' = 1 \<longrightarrow> out = [Answer SoftNudge] \<and> \<not> is_blocked p') \<and>
            (1 < irrelevant_count p' \<and> irrelevant_count p' < IRRELEVANT_QUERY_LIMIT \<longrightarrow>
               out = [Answer HandoffOffer] \<and> \<not> is_blocked p') \<and>
            (IRRELEVANT_QUERY_LIMIT \<le> irrelevant_count p' \<longrightarrow>
               is_blocked p' \<and>
               out = [Answer BlockedNotice,
                      NotifyAdminOfBlock (m_user_id m) (load_dialog ev db (m_user_id m))] \<and>
               length (filter is_block_notification out) = 1))
         \<and> IRRELEVANT_QUERY_LIMIT = 3
         \<and> (irrelevant_count p = 0 \<and> m_user_id m2 = m_user_id m \<and> m_user_id m3 = m_user_id m \<and>
            classified_off_topic orc m2 \<and> classified_off_topic orc m3 \<and>
            (\<forall>x \<in> set ms. m_user_id x = m_user_id m) \<longrightarrow>
            (\<exists>db3 out3 p3. handle_all ev orc db ([m, m2, m3] @ ms) = (db3, out3) \<and>
               parents db3 (m_user_id m) = Some p3 \<and> is_blocked p3 \<and>
               length (filter is_block_notification out3) = 1))"
proof (intro conjI)
  show "\<exists>db' out p'. handle_text_message ev orc db m = (db', out) \<and>
            parents db' (m_user_id m) = Some p' \<and>
            irrelevant_count p' = irrelevant_count p + 1 \<and>
            (irrelevant_count p' = 1 \<longrightarrow> out = [Answer SoftNudge] \<and> \<not> is_blocked p') \<and>
            (1 < irrelevant_count p' \<and> irrelevant_count p' < IRRELEVANT_QUERY_LIMIT \<longrightarrow>
               out = [Answer HandoffOffer] \<and> \<not> is_blocked p') \<and>
            (IRRELEVANT_QUERY_LIMIT \<le> irrelevant_count p' \<longrightarrow>
               is_blocked p' \<and>
               out = [Answer BlockedNotice,
                      NotifyAdminOfBlock (m_user_id m) (load_dialog ev db (m_user_id m))] \<and>
               length (filter is_block_notification out) = 1)"
    using ok
    by (simp add: off_topic_step [OF ev p ok off] Let_def IRRELEVANT_QUERY_LIMIT_def
        block_user_def update_parent_by_id_def)
next
  show "IRRELEVANT_QUERY_LIMIT = 3" by (rule IRRELEVANT_QUERY_LIMIT_3)
next
  show "irrelevant_count p = 0 \<and> m_user_id m2 = m_user_id m \<and> m_user_id m3 = m_user_id m \<and>
            classified_off_topic orc m2 \<and> classified_off_topic orc m3 \<and>
            (\<forall>x \<in> set ms. m_user_id x = m_user_id m) \<longrightarrow>
            (\<exists>db3 out3 p3. handle_all ev orc db ([m, m2, m3] @ ms) = (db3, out3) \<and>
               parents db3 (m_user_id m) = Some p3 \<and> is_blocked p3 \<and>
               length (filter is_block_notification out3) = 1)"
  proof
    assume a: "irrelevant_count p = 0 \<and> m_user_id m2 = m_user_id m \<and> m_user_id m3 = m_user_id m \<and>
            classified_off_topic orc m2 \<and> classified_off_topic orc m3 \<and>
            (\<forall>x \<in> set ms. m_user_id x = m_user_id m)"
    from a have zero: "irrelevant_count p = 0"
      and ids: "m_user_id m = m_user_id m" "m_user_id m2 = m_user_id m" "m_user_id m3 = m_user_id m"
      and off': "classified_off_topic orc m2" "classified_off_topic orc m3"
      and later: "\<forall>x \<in> set ms. m_user_id x = m_user_id m"
      by simp_all
    from scenario_E_then_silence [OF ev p ok zero ids off off' later]
    obtain db' out where "handle_all ev orc db ([m, m2, m3] @ ms) = (db', out)"
      and "parents db' (m_user_id m) = Some (p\<lparr>irrelevant_count := 3, is_blocked := True\<rparr>)"
      and "length (filter is_block_notification out) = 1"
      by blast
    then show "\<exists>db3 out3 p3. handle_all ev orc db ([m, m2, m3] @ ms) = (db3, out3) \<and>
               parents db3 (m_user_id m) = Some p3 \<and> is_blocked p3 \<and>
               length (filter is_block_notification out3) = 1"
      by simp
  qed
qed

theorem off_topic_escalation_witness:
  "snd (handle_text_message live_env off_topic_collaborators demo_store demo_message)
     = [Answer SoftNudge]
   \<and> length (filter is_block_notification
        (snd (handle_all live_env off_topic_collaborators demo_store
               [demo_message, demo_message, demo_message, demo_message]))) = 1
   \<and> map_option is_blocked
        (parents (fst (handle_all live_env off_topic_collaborators demo_store
                        [demo_message, demo_message, demo_message, demo_message])) 42)
     = Some True"
proof -
  have h: "database_url live_env" "\<not> db_raises live_env OpGetFullParentData"
    "parents demo_store (m_user_id demo_message) = Some demo_parent"
    "\<not> is_blocked demo_parent" "onboarding_completed_at demo_parent \<noteq> None"
    by (simp_all add: live_env_def no_fault_def demo_store_def demo_message_def
        demo_parent_def new_parent_def)
  have z: "irrelevant_count demo_parent = 0" "m_user_id demo_message = 42"
    by (simp_all add: demo_parent_def new_parent_def demo_message_def)
  from off_topic_escalation [OF h demo_message_off_topic, of demo_message demo_message
      "[demo_message]"] z demo_message_off_topic
  show ?thesis by auto
qed

section \<open>Moderation: the guard on blocked profiles and the unblock\<close>

lemma unblock_and_reset_found:
  assumes "parents db uid = Some p"
  shows "unblock_and_reset db uid =
     (db\<lparr>parents := (parents db)(uid \<mapsto> p\<lparr>is_blocked := False, irrelevant_count := 0\<rparr>)\<rparr>, True)"
  using assms by (simp add: unblock_and_reset_def)

lemma handle_irrelevant_nonempty: "snd (handle_irrelevant ev db pr m h) \<noteq> []"
  by (simp add: handle_irrelevant_def split: prod.splits)

lemma handle_relevant_nonempty: "snd (handle_relevant ev orc db par m) \<noteq> []"
  by (simp add: handle_relevant_def fallback_def Let_def split: rag_outcome.splits)

lemma main_logic_nonempty: "snd (main_logic ev orc db pr m) \<noteq> []"
  by (simp add: main_logic_def template_or_classify_def Let_def handle_irrelevant_nonempty
      handle_relevant_nonempty split: prod.splits option.splits)

lemma unblocked_step_nonempty:
  assumes "database_url ev" "\<not> db_raises ev OpGetFullParentData"
    and "parents db (m_user_id m) = Some p" "\<not> is_blocked p"
  shows "snd (handle_text_message ev orc db m) \<noteq> []"
  using assms
  by (simp add: handle_text_message_def attempt_def get_full_parent_data_def profile_of_def
      main_logic_nonempty)

text \<open>
  C4.  While the profile read from the store has \<open>is_blocked\<close> set, the text-message
  handler does nothing for any sequence of messages of that user: no reply, no
  notification, no change of the store.  \<open>unblock_and_reset\<close> clears \<open>is_blocked\<close> and
  sets the off-topic counter to 0 in one update of the row, and after it the handler
  answers the user's next message again.
\<close>

theorem blocked_until_unblocked:
  assumes "database_url ev" "\<not> db_raises ev OpGetFullParentData"
    and "parents db uid = Some p" "is_blocked p"
    and "\<forall>m \<in> set ms. m_user_id m = uid"
  shows "handle_all ev orc db ms = (db, [])
       \<and> unblock_and_reset db uid =
           (db\<lparr>parents := (parents db)(uid \<mapsto> p\<lparr>is_blocked := False, irrelevant_count := 0\<rparr>)\<rparr>,
            True)
       \<and> (m_user_id m = uid \<longrightarrow>
            snd (handle_text_message ev orc (fst (unblock_and_reset db uid)) m) \<noteq> [])"
proof (intro conjI impI)
  show "handle_all ev orc db ms = (db, [])"
    using assms by (rule blocked_all)
next
  show "unblock_and_reset db uid =
           (db\<lparr>parents := (parents db)(uid \<mapsto> p\<lparr>is_blocked := False, irrelevant_count := 0\<rparr>)\<rparr>,
            True)"
    using assms(3) by (rule unblock_and_reset_found)
next
  assume "m_user_id m = uid"
  then have "parents (fst (unblock_and_reset db uid)) (m_user_id m) =
      Some (p\<lparr>is_blocked := False, irrelevant_count := 0\<rparr>)"
    by (simp add: unblock_and_reset_found [OF assms(3)])
  from unblocked_step_nonempty [OF assms(1,2) this]
  show "snd (handle_text_message ev orc (fst (unblock_and_reset db uid)) m) \<noteq> []"
    by simp
qed

theorem blocked_until_unblocked_witness:
  "handle_all live_env off_topic_collaborators blocked_store [demo_message, demo_message]
     = (blocked_store, [])
   \<and> map_option is_blocked (parents (fst (unblock_and_reset blocked_store 42)) 42) = Some False
   \<and> map_option irrelevant_count (parents (fst (unblock_and_reset blocked_store 42)) 42) = Some 0
   \<and> snd (handle_text_message live_env off_topic_collaborators
            (fst (unblock_and_reset blocked_store 42)) demo_message) \<noteq> []"
proof -
  have h: "database_url live_env" "\<not> db_raises live_env OpGetFullParentData"
    "parents blocked_store 42 = Some (demo_parent\<lparr>is_blocked := True, irrelevant_count := 3\<rparr>)"
    "is_blocked (demo_parent\<lparr>is_blocked := True, irrelevant_count := 3\<rparr>)"
    "\<forall>m \<in> set [demo_message, demo_message]. m_user_id m = 42"
    by (simp_all add: live_env_def no_fault_def blocked_store_def demo_store_def
        demo_message_def)
  have u: "m_user_id demo_message = 42" by (simp add: demo_message_def)
  from blocked_until_unblocked [OF h, of off_topic_collaborators demo_message] u
  have a: "handle_all live_env off_topic_collaborators blocked_store [demo_message, demo_message]
             = (blocked_store, [])"
    and b: "unblock_and_reset blocked_store 42 =
           (blocked_store\<lparr>parents := (parents blocked_store)
              (42 \<mapsto> demo_parent\<lparr>is_blocked := True, irrelevant_count := 3\<rparr>
                        \<lparr>is_blocked := False, irrelevant_count := 0\<rparr>)\<rparr>, True)"
    and c: "snd (handle_text_message live_env off_topic_collaborators
                  (fst (unblock_and_reset blocked_store 42)) demo_message) \<noteq> []"
    by blast+
  have "map_option is_blocked (parents (fst (unblock_and_reset blocked_store 42)) 42) = Some False"
    and "map_option irrelevant_count (parents (fst (unblock_and_reset blocked_store 42)) 42) = Some 0"
    unfolding b by simp_all
  with a c show ?thesis by blast
qed

section \<open>Booking: the availability re-check\<close>

lemma book_slot_unavailable:
  assumes "\<not> is_slot_available (get_busy_slots cal) (start_time req) (end_time req)"
  shows "book_slot ev cal sheets db req =
     (db,
      (if truthy_str (cancel_event_id req) \<and> delete_event cal (the (cancel_event_id req))
       then [EventDeleted (the (cancel_event_id req))] else []),
      BookingFailed SlotAlreadyTaken)"
  using assms by (simp add: book_slot_def Let_def)

lemma book_slot_created_only_if_available:
  assumes "\<exists>x \<in> set (fst (snd (book_slot ev cal sheets db req))). is_event_created x"
  shows "is_slot_available (get_busy_slots cal) (start_time req) (end_time req)"
proof (rule ccontr)
  assume "\<not> is_slot_available (get_busy_slots cal) (start_time req) (end_time req)"
  from book_slot_unavailable [OF this] assms show False
    by (auto split: if_splits)
qed

text \<open>
  C7.  \<open>book_slot\<close> checks \<open>is_slot_available\<close> against the provider before it calls
  \<open>create_event\<close>: a remote event is created only if that check passed, and when the
  check finds the slot occupied (or the provider fails) the result is \<open>success = False\<close>
  with the fixed "slot already taken" error, no event is created, and the store (so the
  lessons table) is unchanged.
\<close>

theorem book_slot_rechecks_availability:
  "(\<not> is_slot_available (get_busy_slots cal) (start_time req) (end_time req) \<longrightarrow>
      snd (snd (book_slot ev cal sheets db req)) = BookingFailed SlotAlreadyTaken \<and>
      \<not> success (snd (snd (book_slot ev cal sheets db req))) \<and>
      fst (book_slot ev cal sheets db req) = db \<and>
      lessons (fst (book_slot ev cal sheets db req)) = lessons db \<and>
      \<not> (\<exists>x \<in> set (fst (snd (book_slot ev cal sheets db req))). is_event_created x))
   \<and> ((\<exists>x \<in> set (fst (snd (book_slot ev cal sheets db req))). is_event_created x) \<longrightarrow>
      is_slot_available (get_busy_slots cal) (start_time req) (end_time req))"
proof (intro conjI impI)
  assume na: "\<not> is_slot_available (get_busy_slots cal) (start_time req) (end_time req)"
  note r = book_slot_unavailable [OF na, of ev sheets db]
  show "snd (snd (book_slot ev cal sheets db req)) = BookingFailed SlotAlreadyTaken"
    by (simp add: r)
  show "\<not> success (snd (snd (book_slot ev cal sheets db req)))"
    by (simp add: r success_def)
  show "fst (book_slot ev cal sheets db req) = db"
    by (simp add: r)
  show "lessons (fst (book_slot ev cal sheets db req)) = lessons db"
    by (simp add: r)
  show "\<not> (\<exists>x \<in> set (fst (snd (book_slot ev cal sheets db req))). is_event_created x)"
    by (simp add: r)
next
  assume "\<exists>x \<in> set (fst (snd (book_slot ev cal sheets db req))). is_event_created x"
  then show "is_slot_available (get_busy_slots cal) (start_time req) (end_time req)"
    by (rule book_slot_created_only_if_available)
qed

theorem book_slot_rechecks_availability_witness:
  "book_slot live_env busy_calendar True demo_store demo_request
     = (demo_store, [], BookingFailed SlotAlreadyTaken)
   \<and> is_slot_available (get_busy_slots free_calendar) (start_time demo_request)
        (end_time demo_request)"
proof -
  have na: "\<not> is_slot_available (get_busy_slots busy_calendar) (start_time demo_request)
              (end_time demo_request)"
    by (simp add: is_slot_available_def busy_calendar_def taken_provider_def demo_request_def
        hours_def usec_per_hour_def)
  have made: "\<exists>x \<in> set (fst (snd (book_slot live_env free_calendar True demo_store demo_request))).
      is_event_created x"
    by (simp add: book_slot_def Let_def is_slot_available_def free_calendar_def no_busy_def
        accept_event_def demo_request_def truthy_str_def split: prod.splits)
  from book_slot_rechecks_availability [of busy_calendar demo_request live_env True demo_store] na
  have "snd (snd (book_slot live_env busy_calendar True demo_store demo_request))
          = BookingFailed SlotAlreadyTaken"
    and "fst (book_slot live_env busy_calendar True demo_store demo_request) = demo_store"
    and "\<not> (\<exists>x \<in> set (fst (snd (book_slot live_env busy_calendar True demo_store demo_request))).
            is_event_created x)"
    by blast+
  moreover have "fst (snd (book_slot live_env busy_calendar True demo_store demo_request)) = []"
    using book_slot_unavailable [OF na, of live_env True demo_store]
    by (simp add: demo_request_def truthy_str_def)
  moreover from book_slot_rechecks_availability [of free_calendar demo_request live_env True demo_store]
    made
  have "is_slot_available (get_busy_slots free_calendar) (start_time demo_request)
        (end_time demo_request)"
    by blast
  ultimately show ?thesis
    by (metis prod.collapse)
qed

section \<open>Booking: success without a lesson row\<close>

lemma book_slot_created:
  assumes "is_slot_available (get_busy_slots cal) (start_time req) (end_time req)"
    and "create_event cal (start_time req) (end_time req) (description_parts req) = Inr event"
  shows "fst (book_slot ev cal sheets db req) = fst (save_lesson ev db req (ev_id event))"
    and "\<exists>b. snd (snd (book_slot ev cal sheets db req)) = BookingOk b \<and>
             r_event_id b = ev_id event \<and>
             r_lesson_id b = snd (save_lesson ev db req (ev_id event))"
    and "\<exists>x \<in> set (fst (snd (book_slot ev cal sheets db req))). is_event_created x"
  using assms by (simp_all add: book_slot_def Let_def split: prod.splits)

lemma resolve_child_lessons: "lessons (fst (resolve_child ev db req p)) = lessons db"
  by (simp add: resolve_child_def attempt_def add_child_profile_def Let_def
      split: list.splits)

lemma get_or_create_parent_lessons:
  "lessons (fst (get_or_create_parent ev db uid uname)) = lessons db"
  by (simp add: get_or_create_parent_def insert_parent_def Let_def split: option.splits)

lemma get_or_create_parent_offline:
  "\<not> database_url ev \<Longrightarrow> get_or_create_parent ev db uid uname = (db, None)"
  by (simp add: get_or_create_parent_def)

text \<open>
  When the store is not configured, or finding the parent raises, or inserting the lesson
  raises, the block returns no lesson id and leaves the lessons table as it was.
\<close>

lemma save_lesson_not_persisted:
  assumes "\<not> database_url ev \<or> db_raises ev OpGetOrCreateParent \<or> db_raises ev OpAddTrialLesson"
  shows "snd (save_lesson ev db req eid) = None"
    and "lessons (fst (save_lesson ev db req eid)) = lessons db"
proof -
  have both: "snd (save_lesson ev db req eid) = None \<and>
      lessons (fst (save_lesson ev db req eid)) = lessons db"
  proof (cases "truthy_int (user_id req)")
    case False
    then show ?thesis by (simp add: save_lesson_def)
  next
    case uid: True
    show ?thesis
    proof (cases "db_raises ev OpGetOrCreateParent")
      case True
      with uid show ?thesis by (simp add: save_lesson_def attempt_def)
    next
      case ok: False
      show ?thesis
      proof (cases "database_url ev")
        case False
        with uid ok show ?thesis
          by (simp add: save_lesson_def attempt_def get_or_create_parent_offline)
      next
        case True
        with assms ok have bad: "db_raises ev OpAddTrialLesson" by simp
        obtain db1 par where g: "get_or_create_parent ev db (the (user_id req))
            (Some (user_contact req)) = (db1, par)"
          by (cases "get_or_create_parent ev db (the (user_id req)) (Some (user_contact req))")
        have l1: "lessons db1 = lessons db"
          using get_or_create_parent_lessons [of ev db "the (user_id req)" "Some (user_contact req)"] g
          by simp
        show ?thesis
        proof (cases par)
          case None
          with uid ok g l1 show ?thesis by (simp add: save_lesson_def attempt_def)
        next
          case (Some p)
          obtain db2 r where rc: "resolve_child ev db1 req p = (db2, r)"
            by (cases "resolve_child ev db1 req p")
          have l2: "lessons db2 = lessons db1"
            using resolve_child_lessons [of ev db1 req p] rc by simp
          from uid ok g Some rc bad l1 l2 show ?thesis
            by (simp add: save_lesson_def attempt_def split: sum.splits)
        qed
      qed
    qed
  qed
  from both show "snd (save_lesson ev db req eid) = None"
    and "lessons (fst (save_lesson ev db req eid)) = lessons db"
    by simp_all
qed

text \<open>
  C10.  Whenever the availability check passes and \<open>create_event\<close> returns an event,
  \<open>book_slot\<close> returns \<open>success = True\<close> with that event's id and the event was
  created; if moreover the store is not configured, or finding the parent raises, or
  inserting the lesson raises, the result carries \<open>lesson_id = None\<close> and the lessons
  table is unchanged, so no lesson row refers to the event.
\<close>

theorem booking_succeeds_without_lesson_row:
  assumes "is_slot_available (get_busy_slots cal) (start_time req) (end_time req)"
    and "create_event cal (start_time req) (end_time req) (description_parts req) = Inr event"
  shows "success (snd (snd (book_slot ev cal sheets db req)))
       \<and> (\<exists>x \<in> set (fst (snd (book_slot ev cal sheets db req))). is_event_created x)
       \<and> (\<not> database_url ev \<or> db_raises ev OpGetOrCreateParent \<or> db_raises ev OpAddTrialLesson
            \<longrightarrow> lesson_id (snd (snd (book_slot ev cal sheets db req))) = None \<and>
                lessons (fst (book_slot ev cal sheets db req)) = lessons db)"
proof (intro conjI impI)
  from book_slot_created(2) [OF assms, of ev sheets db]
  obtain b where b: "snd (snd (book_slot ev cal sheets db req)) = BookingOk b"
    and lid: "r_lesson_id b = snd (save_lesson ev db req (ev_id event))"
    by blast
  show "success (snd (snd (book_slot ev cal sheets db req)))"
    by (simp add: b success_def)
  show "\<exists>x \<in> set (fst (snd (book_slot ev cal sheets db req))). is_event_created x"
    by (rule book_slot_created(3) [OF assms])
  assume bad: "\<not> database_url ev \<or> db_raises ev OpGetOrCreateParent \<or>
      db_raises ev OpAddTrialLesson"
  show "lesson_id (snd (snd (book_slot ev cal sheets db req))) = None"
    by (simp add: b lid lesson_id_def save_lesson_not_persisted(1) [OF bad])
  show "lessons (fst (book_slot ev cal sheets db req)) = lessons db"
    by (simp add: book_slot_created(1) [OF assms] save_lesson_not_persisted(2) [OF bad])
qed

theorem booking_succeeds_without_lesson_row_witness:
  "success (snd (snd (book_slot failing_env free_calendar False demo_store demo_request)))
   \<and> lesson_id (snd (snd (book_slot failing_env free_calendar False demo_store demo_request))) = None
   \<and> lessons (fst (book_slot failing_env free_calendar False demo_store demo_request)) = []
   \<and> success (snd (snd (book_slot offline_env free_calendar False demo_store demo_request)))
   \<and> lesson_id (snd (snd (book_slot offline_env free_calendar False demo_store demo_request))) = None"
proof -
  have av: "is_slot_available (get_busy_slots free_calendar) (start_time demo_request)
      (end_time demo_request)"
    by (simp add: is_slot_available_def free_calendar_def no_busy_def)
  have cr: "create_event free_calendar (start_time demo_request) (end_time demo_request)
      (description_parts demo_request) = Inr demo_event"
    by (simp add: free_calendar_def accept_event_def)
  have f: "db_raises failing_env OpAddTrialLesson"
    by (simp add: failing_env_def lesson_insert_fails_def)
  have off: "\<not> database_url offline_env"
    by (simp add: offline_env_def)
  have l0: "lessons demo_store = []" by (simp add: demo_store_def)
  from booking_succeeds_without_lesson_row [OF av cr, of failing_env False demo_store] f l0
    booking_succeeds_without_lesson_row [OF av cr, of offline_env False demo_store] off
  show ?thesis by simp
qed

section \<open>Onboarding completion is two commits\<close>

text \<open>
  C8, as the spec states it, fails: when the profile update raises, the child row that
  \<open>add_child_profile\<close> committed before it stays in the store, while no contact field
  and no completion timestamp is written.
\<close>

theorem onboarding_not_atomic_counterexample:
  "snd (finish_onboarding broken_env fresh_store 1000 demo_answers 42 None) = Some DbError
   \<and> length (children (fst (finish_onboarding broken_env fresh_store 1000 demo_answers 42 None))) = 1
   \<and> parents (fst (finish_onboarding broken_env fresh_store 1000 demo_answers 42 None)) 42
       = Some (new_parent 1 None)
   \<and> onboarding_completed_at (new_parent 1 None) = None
   \<and> phone (new_parent 1 None) = None"
  by (simp add: finish_onboarding_def attempt_def broken_env_def profile_update_fails_def
      get_or_create_parent_def fresh_store_def add_child_profile_def Let_def new_parent_def)

lemma finish_onboarding_cases:
  "finish_onboarding ev db now a uid uname =
     (if db_raises ev OpGetOrCreateParent then (db, Some DbError)
      else case get_or_create_parent ev db uid uname of
        (db1, None) \<Rightarrow> (db1, Some AttributeError)
      | (db1, Some p) \<Rightarrow>
          (let ud = \<lparr>ud_parent_name = Some (str_or (a_parent_name a) []),
                     ud_parent_phone = a_parent_phone a, ud_parent_email = a_parent_email a,
                     ud_parent_contact_tg = a_parent_contact_tg a,
                     ud_child_name = a_child_name a, ud_child_age = child_age_of a,
                     ud_child_interests = a_child_interests a,
                     ud_course_name = course_for_age (child_age_of a)\<rparr>;
               added = add_child_profile db1 (p_id p) (str_or (a_child_name a) default_child_name)
                         (child_age_of a) (a_child_interests a)
                         (Some (course_for_age (child_age_of a))) None
           in if db_raises ev OpAddChildProfile then (db1, Some DbError)
              else if db_raises ev OpCompleteOnboarding then (fst added, Some DbError)
              else (complete_onboarding_in_db (fst added) now (p_id p)
                      (Some (str_or (a_parent_name a) [])) (a_parent_phone a) (a_parent_email a) ud,
                    None)))"
  by (simp add: finish_onboarding_def attempt_def Let_def split: prod.splits option.splits)

lemma get_or_create_parent_row:
  assumes "get_or_create_parent ev db uid uname = (db1, Some p)"
  shows "parents db1 uid = Some p" and "children db1 = children db"
    and "\<forall>k. parents db1 k = parents db k \<or>
             (k = uid \<and> parents db k = None \<and> parents db1 k = Some (new_parent (next_parent_id db) uname))"
  using assms
  by (auto simp: get_or_create_parent_def insert_parent_def Let_def
      split: if_splits option.splits)

lemma get_or_create_parent_none:
  assumes "get_or_create_parent ev db uid uname = (db1, None)"
  shows "db1 = db"
  using assms
  by (auto simp: get_or_create_parent_def insert_parent_def Let_def
      split: if_splits option.splits)

lemma complete_onboarding_row:
  assumes "parents db uid = Some p"
  shows "parents (complete_onboarding_in_db db now (p_id p) fname ph em ud) uid =
      Some (p\<lparr>onboarding_completed_at := Some now, user_data := Some ud,
               onboarding_step := ONBOARDING_COMPLETED,
               full_name := fname, phone := ph, email := em\<rparr>)"
    and "children (complete_onboarding_in_db db now (p_id p) fname ph em ud) = children db"
  using assms by (simp_all add: complete_onboarding_in_db_def update_parent_by_id_def)

lemma add_child_profile_row:
  "parents (fst (add_child_profile db pid name age interests course lc)) = parents db"
  "children (fst (add_child_profile db pid name age interests course lc)) =
     children db @ [snd (add_child_profile db pid name age interests course lc)]"
  "c_parent_id (snd (add_child_profile db pid name age interests course lc)) = pid"
  by (simp_all add: add_child_profile_def Let_def)

text \<open>
  C8, amended.  Onboarding completion is two commits.  The profile's contact fields
  (name, phone, email), the questionnaire data, the onboarding step and the completion
  timestamp are written by one update of the row: when \<open>finish_onboarding\<close> returns
  normally all of them are written and the child row was appended; when it raises, no
  profile field was written (the parents table is as it was, but for a row just created
  with defaults).  The child row is created and committed before that update: when only
  the profile update raises, the child row stays in the store; when creating the child
  raises, no child row and no profile field is written.
\<close>

theorem onboarding_profile_update_atomic:
  "(snd (finish_onboarding ev db now a uid uname) = None \<longrightarrow>
      (\<exists>p c. parents (fst (finish_onboarding ev db now a uid uname)) uid = Some p \<and>
         onboarding_completed_at p = Some now \<and>
         full_name p = Some (str_or (a_parent_name a) []) \<and>
         phone p = a_parent_phone a \<and> email p = a_parent_email a \<and>
         onboarding_step p = ONBOARDING_COMPLETED \<and>
         children (fst (finish_onboarding ev db now a uid uname)) = children db @ [c] \<and>
         c_parent_id c = p_id p))
   \<and> (snd (finish_onboarding ev db now a uid uname) \<noteq> None \<longrightarrow>
      (\<forall>k. parents (fst (finish_onboarding ev db now a uid uname)) k = parents db k \<or>
           (k = uid \<and> parents db k = None \<and>
            parents (fst (finish_onboarding ev db now a uid uname)) k
              = Some (new_parent (next_parent_id db) uname))) \<and>
      (children (fst (finish_onboarding ev db now a uid uname)) = children db \<or>
       (db_raises ev OpCompleteOnboarding \<and>
        (\<exists>c. children (fst (finish_onboarding ev db now a uid uname)) = children db @ [c]))))
   \<and> (database_url ev \<and> \<not> db_raises ev OpGetOrCreateParent \<and>
       \<not> db_raises ev OpAddChildProfile \<and> db_raises ev OpCompleteOnboarding \<longrightarrow>
      snd (finish_onboarding ev db now a uid uname) = Some DbError \<and>
      (\<exists>c. children (fst (finish_onboarding ev db now a uid uname)) = children db @ [c]))
   \<and> (db_raises ev OpAddChildProfile \<longrightarrow>
      snd (finish_onboarding ev db now a uid uname) \<noteq> None \<and>
      children (fst (finish_onboarding ev db now a uid uname)) = children db)"
proof (cases "db_raises ev OpGetOrCreateParent")
  case True
  then show ?thesis by (simp add: finish_onboarding_cases)
next
  case lookup: False
  obtain db1 par where g: "get_or_create_parent ev db uid uname = (db1, par)"
    by (cases "get_or_create_parent ev db uid uname")
  show ?thesis
  proof (cases par)
    case None
    with g have "db1 = db" by (simp add: get_or_create_parent_none)
    moreover from g None have "\<not> database_url ev \<or> parents db uid \<noteq> None"
      by (auto simp: get_or_create_parent_def Let_def split: if_splits option.splits)
    moreover from g None have "\<not> database_url ev"
      by (auto simp: get_or_create_parent_def Let_def split: if_splits option.splits)
    ultimately show ?thesis
      using lookup g None by (simp add: finish_onboarding_cases)
  next
    case (Some p)
    note row = get_or_create_parent_row [OF g [unfolded Some]]
    show ?thesis
    proof (cases "db_raises ev OpAddChildProfile")
      case True
      with lookup g Some row show ?thesis
        by (simp add: finish_onboarding_cases Let_def)
    next
      case child_ok: False
      show ?thesis
      proof (cases "db_raises ev OpCompleteOnboarding")
        case True
        with lookup g Some row child_ok show ?thesis
          by (simp add: finish_onboarding_cases Let_def add_child_profile_row)
      next
        case False
        have "parents (fst (add_child_profile db1 (p_id p)
                 (str_or (a_child_name a) default_child_name) (child_age_of a)
                 (a_child_interests a) (Some (course_for_age (child_age_of a))) None)) uid = Some p"
          using row(1) by (simp add: add_child_profile_row)
        note upd = complete_onboarding_row [OF this]
        from lookup g Some row child_ok False show ?thesis
          by (simp add: finish_onboarding_cases Let_def upd add_child_profile_row)
      qed
    qed
  qed
qed

theorem onboarding_profile_update_atomic_witness:
  "snd (finish_onboarding live_env fresh_store 1000 demo_answers 42 None) = None
   \<and> map_option onboarding_completed_at
        (parents (fst (finish_onboarding live_env fresh_store 1000 demo_answers 42 None)) 42)
       = Some (Some 1000)
   \<and> map_option phone
        (parents (fst (finish_onboarding live_env fresh_store 1000 demo_answers 42 None)) 42)
       = Some (Some (ascii ''+70000000000''))
   \<and> length (children (fst (finish_onboarding live_env fresh_store 1000 demo_answers 42 None))) = 1
   \<and> snd (finish_onboarding broken_env fresh_store 1000 demo_answers 42 None) = Some DbError
   \<and> length (children (fst (finish_onboarding broken_env fresh_store 1000 demo_answers 42 None))) = 1"
proof -
  have ok: "snd (finish_onboarding live_env fresh_store 1000 demo_answers 42 None) = None"
    by (simp add: finish_onboarding_cases live_env_def no_fault_def get_or_create_parent_def
        fresh_store_def Let_def)
  have br: "database_url broken_env \<and> \<not> db_raises broken_env OpGetOrCreateParent \<and>
       \<not> db_raises broken_env OpAddChildProfile \<and> db_raises broken_env OpCompleteOnboarding"
    by (simp add: broken_env_def profile_update_fails_def)
  have c0: "children fresh_store = []" by (simp add: fresh_store_def)
  have ph: "a_parent_phone demo_answers = Some (ascii ''+70000000000'')"
    by (simp add: demo_answers_def)
  from onboarding_profile_update_atomic [of live_env fresh_store 1000 demo_answers 42 None] ok
  obtain p c where "parents (fst (finish_onboarding live_env fresh_store 1000 demo_answers 42 None)) 42
        = Some p"
    and "onboarding_completed_at p = Some 1000" and "phone p = a_parent_phone demo_answers"
    and "children (fst (finish_onboarding live_env fresh_store 1000 demo_answers 42 None))
        = children fresh_store @ [c]"
    by blast
  moreover from onboarding_profile_update_atomic [of broken_env fresh_store 1000 demo_answers 42 None] br
  obtain c' where "snd (finish_onboarding broken_env fresh_store 1000 demo_answers 42 None) = Some DbError"
    and "children (fst (finish_onboarding broken_env fresh_store 1000 demo_answers 42 None))
        = children fresh_store @ [c']"
    by blast
  ultimately show ?thesis
    using ok c0 ph by simp
qed

section \<open>The completion sweep\<close>

lemma foldl_mark_lesson_completed:
  "foldl mark_lesson_completed ls ids =
     map (\<lambda>l. if l_id l \<in> set ids then l\<lparr>status := COMPLETED\<rparr> else l) ls"
proof (induction ids arbitrary: ls)
  case Nil
  show ?case by (simp add: map_idI)
next
  case (Cons i ids)
  have "foldl mark_lesson_completed ls (i # ids) =
      foldl mark_lesson_completed (mark_lesson_completed ls i) ids"
    by simp
  also have "\<dots> = map (\<lambda>l. if l_id l \<in> set ids then l\<lparr>status := COMPLETED\<rparr> else l)
      (mark_lesson_completed ls i)"
    by (rule Cons.IH)
  also have "\<dots> = map (\<lambda>l. if l_id l \<in> set (i # ids) then l\<lparr>status := COMPLETED\<rparr> else l) ls"
    by (auto simp: mark_lesson_completed_def)
  finally show ?case .
qed

text \<open>
  What one completion sweep does to a lesson of a table with distinct ids: it becomes
  \<open>COMPLETED\<close> exactly when it is \<open>PLANNED\<close> and scheduled at least one hour ago.
\<close>

lemma check_completed_lessons_status:
  assumes "distinct (map l_id ls)"
  shows "check_completed_lessons now_utc ls =
     map (\<lambda>l. if status l = PLANNED \<and> scheduled_at l \<le> now_utc - hours 1
               then l\<lparr>status := COMPLETED\<rparr> else l) ls"
proof -
  have "l_id l \<in> l_id ` {x \<in> set ls. status x = PLANNED \<and> scheduled_at x \<le> now_utc - hours 1}
        \<longleftrightarrow> status l = PLANNED \<and> scheduled_at l \<le> now_utc - hours 1"
    if "l \<in> set ls" for l
    using that assms by (auto simp: distinct_map inj_on_def)
  then show ?thesis
    by (simp add: check_completed_lessons_def Let_def foldl_mark_lesson_completed)
qed


text \<open>Scenario D holds: 90 minutes ago is completed, 30 minutes ago is untouched.\<close>

lemma scenario_D:
  "check_completed_lessons now_utc [lesson_at (now_utc - minutes 90)]
     = [(lesson_at (now_utc - minutes 90))\<lparr>status := COMPLETED\<rparr>]"
  "check_completed_lessons now_utc [lesson_at (now_utc - minutes 30)]
     = [lesson_at (now_utc - minutes 30)]"
  by (simp_all add: check_completed_lessons_def mark_lesson_completed_def lesson_at_def Let_def
      hours_def minutes_def usec_per_hour_def usec_per_minute_def)

section \<open>The reminder sweep\<close>

lemma lessons_to_process_unsent:
  "(l, t) \<in> set (lessons_to_process now_msk ls) \<Longrightarrow>
     l \<in> set ls \<and> (t = Reminder24h \<longrightarrow> \<not> reminder_24h_sent l)
              \<and> (t = Reminder1h \<longrightarrow> \<not> reminder_1h_sent l)"
  by (induction ls) (auto simp: in_window_24h_def in_window_1h_def split: if_splits)

lemma delivered_step:
  "delivered (send_reminder_message b l w # rs) =
     (if build_ok b l \<and> send_ok b l then [\<lparr>n_lesson_id = l_id l, n_type = w\<rparr>] else [])
     @ delivered rs"
  by (simp add: send_reminder_message_def)

lemma delivered_map:
  "delivered (map (\<lambda>(l, when). send_reminder_message b l when) tp) =
     map (\<lambda>(l, w). \<lparr>n_lesson_id = l_id l, n_type = w\<rparr>)
       (filter (\<lambda>(l, w). build_ok b l \<and> send_ok b l) tp)"
proof (induction tp)
  case Nil
  show ?case by simp
next
  case (Cons x tp)
  obtain l w where x: "x = (l, w)" by (cases x)
  show ?case
    unfolding x using Cons.IH by (simp add: delivered_step del: delivered.simps)
qed

lemma successful_ids_step:
  "successful_ids t ((l, w) # ps) (send_reminder_message b l w # rs) =
     (if build_ok b l \<and> w = t then [l_id l] else []) @ successful_ids t ps rs"
  by (simp add: send_reminder_message_def)

lemma successful_ids_map:
  "successful_ids t tp (map (\<lambda>(l, when). send_reminder_message b l when) tp) =
     map (\<lambda>(l, w). l_id l) (filter (\<lambda>(l, w). build_ok b l \<and> w = t) tp)"
proof (induction tp)
  case Nil
  show ?case by simp
next
  case (Cons x tp)
  obtain l w where x: "x = (l, w)" by (cases x)
  show ?case
    unfolding x using Cons.IH by (simp add: successful_ids_step del: successful_ids.simps)
qed

lemma lessons_to_process_distinct:
  "distinct (map l_id ls) \<Longrightarrow> distinct (map (\<lambda>(l, w). l_id l) (lessons_to_process now_msk ls))"
proof (induction ls)
  case Nil
  show ?case by simp
next
  case (Cons l ls)
  have "l_id l \<notin> (\<lambda>(l, w). l_id l) ` set (lessons_to_process now_msk ls)"
  proof
    assume "l_id l \<in> (\<lambda>(l, w). l_id l) ` set (lessons_to_process now_msk ls)"
    then obtain l' w where "(l', w) \<in> set (lessons_to_process now_msk ls)" "l_id l' = l_id l"
      by auto
    with lessons_to_process_unsent [of l' w now_msk ls] have "l' \<in> set ls" "l_id l' = l_id l"
      by simp_all
    then have "l_id l \<in> l_id ` set ls"
      by (metis imageI)
    with Cons.prems show False by simp
  qed
  with Cons show ?case by simp
qed

lemma delivered_distinct:
  assumes "distinct (map (\<lambda>(l, w). l_id l) tp)"
  shows "distinct (map (\<lambda>(l, w). \<lparr>n_lesson_id = l_id l, n_type = w\<rparr>) (filter Q tp))"
proof -
  have "distinct (map (\<lambda>(l, w). l_id l) (filter Q tp))"
    using assms by (simp add: distinct_map_filter)
  moreover have "map (\<lambda>(l, w). l_id l) (filter Q tp) =
      map n_lesson_id (map (\<lambda>(l, w). \<lparr>n_lesson_id = l_id l, n_type = w\<rparr>) (filter Q tp))"
    by (simp add: comp_def case_prod_beta)
  ultimately show ?thesis
    by (metis distinct_map)
qed


lemma check_completed_lessons_map:
  "check_completed_lessons now_utc ls =
     map (\<lambda>l. if l_id l \<in> l_id ` {x \<in> set ls. status x = PLANNED \<and> scheduled_at x \<le> now_utc - hours 1}
               then l\<lparr>status := COMPLETED\<rparr> else l) ls"
  by (simp add: check_completed_lessons_def Let_def foldl_mark_lesson_completed)

lemma sweep_unfold:
  "check_and_send_reminders b now_msk now_utc now_c ls =
     (let tp = lessons_to_process now_msk
                 (filter (\<lambda>l. status l = PLANNED \<and> scheduled_at l \<le> now_utc + hours 25) ls);
          ids24 = map (\<lambda>(l, w). l_id l) (filter (\<lambda>(l, w). build_ok b l \<and> w = Reminder24h) tp);
          ids1 = map (\<lambda>(l, w). l_id l) (filter (\<lambda>(l, w). build_ok b l \<and> w = Reminder1h) tp)
      in if tp = [] then (ls, [])
         else (check_completed_lessons now_c
                 (map (\<lambda>l. if l_id l \<in> set ids1 then l\<lparr>reminder_1h_sent := True\<rparr> else l)
                    (map (\<lambda>l. if l_id l \<in> set ids24 then l\<lparr>reminder_24h_sent := True\<rparr> else l) ls)),
               map (\<lambda>(l, w). \<lparr>n_lesson_id = l_id l, n_type = w\<rparr>)
                 (filter (\<lambda>(l, w). build_ok b l \<and> send_ok b l) tp)))"
  unfolding check_and_send_reminders_def Let_def successful_ids_map delivered_map ..

lemma flags_after_maps:
  "list_all2 (flags_after ids24 ids1) ls
     (map (\<lambda>l. if l_id l \<in> S then l\<lparr>status := COMPLETED\<rparr> else l)
        (map (\<lambda>l. if l_id l \<in> set ids1 then l\<lparr>reminder_1h_sent := True\<rparr> else l)
           (map (\<lambda>l. if l_id l \<in> set ids24 then l\<lparr>reminder_24h_sent := True\<rparr> else l) ls)))"
  by (simp add: list_all2_map2 list_all2_same flags_after_def)

lemma sweep_rows:
  assumes "check_and_send_reminders b now_msk now_utc now_c ls = (ls', d)"
  defines "tp \<equiv> lessons_to_process now_msk
      (filter (\<lambda>l. status l = PLANNED \<and> scheduled_at l \<le> now_utc + hours 25) ls)"
  shows "list_all2 (flags_after
            (map (\<lambda>(l, w). l_id l) (filter (\<lambda>(l, w). build_ok b l \<and> w = Reminder24h) tp))
            (map (\<lambda>(l, w). l_id l) (filter (\<lambda>(l, w). build_ok b l \<and> w = Reminder1h) tp)))
          ls ls'"
    and "d = map (\<lambda>(l, w). \<lparr>n_lesson_id = l_id l, n_type = w\<rparr>)
               (filter (\<lambda>(l, w). build_ok b l \<and> send_ok b l) tp)"
proof -
  define ids24 where "ids24 = map (\<lambda>(l, w). l_id l)
      (filter (\<lambda>(l, w). build_ok b l \<and> w = Reminder24h) tp)"
  define ids1 where "ids1 = map (\<lambda>(l, w). l_id l)
      (filter (\<lambda>(l, w). build_ok b l \<and> w = Reminder1h) tp)"
  define marked where "marked =
      map (\<lambda>l. if l_id l \<in> set ids1 then l\<lparr>reminder_1h_sent := True\<rparr> else l)
        (map (\<lambda>l. if l_id l \<in> set ids24 then l\<lparr>reminder_24h_sent := True\<rparr> else l) ls)"
  have run: "(ls', d) =
      (if tp = [] then (ls, [])
       else (check_completed_lessons now_c marked,
             map (\<lambda>(l, w). \<lparr>n_lesson_id = l_id l, n_type = w\<rparr>)
               (filter (\<lambda>(l, w). build_ok b l \<and> send_ok b l) tp)))"
    using assms(1) unfolding sweep_unfold Let_def tp_def ids24_def ids1_def marked_def by simp
  show "d = map (\<lambda>(l, w). \<lparr>n_lesson_id = l_id l, n_type = w\<rparr>)
               (filter (\<lambda>(l, w). build_ok b l \<and> send_ok b l) tp)"
    using run by (cases "tp = []") simp_all
  have main: "list_all2 (flags_after ids24 ids1) ls ls'"
  proof (cases "tp = []")
    case True
    with run have "ls' = ls" by simp
    moreover from True have "ids24 = []" "ids1 = []" by (simp_all add: ids24_def ids1_def)
    ultimately show ?thesis by (simp add: list_all2_same flags_after_def)
  next
    case False
    with run have "ls' = check_completed_lessons now_c marked" by simp
    then have "ls' = map (\<lambda>l. if l_id l \<in> l_id ` {x \<in> set marked. status x = PLANNED \<and>
                                   scheduled_at x \<le> now_c - hours 1}
                             then l\<lparr>status := COMPLETED\<rparr> else l) marked"
      by (simp only: check_completed_lessons_map)
    then show ?thesis
      unfolding marked_def [symmetric] by (simp only: marked_def flags_after_maps)
  qed
  then show "list_all2 (flags_after
            (map (\<lambda>(l, w). l_id l) (filter (\<lambda>(l, w). build_ok b l \<and> w = Reminder24h) tp))
            (map (\<lambda>(l, w). l_id l) (filter (\<lambda>(l, w). build_ok b l \<and> w = Reminder1h) tp)))
          ls ls'"
    unfolding ids24_def ids1_def .
qed

lemma flags_after_ids:
  "list_all2 (flags_after a b) xs ys \<Longrightarrow> map l_id ys = map l_id xs"
  by (induction xs ys rule: list_all2_induct) (simp_all add: flags_after_def)

lemma list_all2_right_member:
  "list_all2 R xs ys \<Longrightarrow> y \<in> set ys \<Longrightarrow> \<exists>x \<in> set xs. R x y"
  by (induction xs ys rule: list_all2_induct) auto

text \<open>
  Two sweeps in a row, whatever the clocks and the bots: no lesson gets the same kind of
  reminder delivered twice.
\<close>

lemma two_sweeps_no_repeat:
  assumes ids: "distinct (map l_id ls)"
    and r1: "check_and_send_reminders b1 m1 u1 c1 ls = (ls', d1)"
    and r2: "check_and_send_reminders b2 m2 u2 c2 ls' = (ls'', d2)"
  shows "distinct (d1 @ d2)"
proof -
  define tp1 where "tp1 = lessons_to_process m1
      (filter (\<lambda>l. status l = PLANNED \<and> scheduled_at l \<le> u1 + hours 25) ls)"
  define tp2 where "tp2 = lessons_to_process m2
      (filter (\<lambda>l. status l = PLANNED \<and> scheduled_at l \<le> u2 + hours 25) ls')"
  note rows1 = sweep_rows [OF r1, folded tp1_def]
  note rows2 = sweep_rows [OF r2, folded tp2_def]
  have ids': "distinct (map l_id ls')"
    using flags_after_ids [OF rows1(1)] ids by simp
  have "distinct (map (\<lambda>(l, w). l_id l) tp1)"
    unfolding tp1_def using ids by (intro lessons_to_process_distinct) (simp add: distinct_map_filter)
  then have dist1: "distinct d1"
    unfolding rows1(2) by (rule delivered_distinct)
  have "distinct (map (\<lambda>(l, w). l_id l) tp2)"
    unfolding tp2_def using ids' by (intro lessons_to_process_distinct) (simp add: distinct_map_filter)
  then have dist2: "distinct d2"
    unfolding rows2(2) by (rule delivered_distinct)
  have "set d1 \<inter> set d2 = {}"
  proof (rule ccontr)
    assume "set d1 \<inter> set d2 \<noteq> {}"
    then obtain n where n1: "n \<in> set d1" and n2: "n \<in> set d2" by blast
    from n1 obtain l w where lw: "(l, w) \<in> set tp1" "build_ok b1 l"
      and n: "n = \<lparr>n_lesson_id = l_id l, n_type = w\<rparr>"
      unfolding rows1(2) by auto
    from n2 obtain l' w' where lw': "(l', w') \<in> set tp2"
      and n': "n = \<lparr>n_lesson_id = l_id l', n_type = w'\<rparr>"
      unfolding rows2(2) by auto
    from n n' have same: "l_id l' = l_id l" "w' = w" by simp_all
    from lessons_to_process_unsent [OF lw'(1) [unfolded tp2_def]]
    have mem: "l' \<in> set ls'"
      and unsent: "w' = Reminder24h \<longrightarrow> \<not> reminder_24h_sent l'"
                  "w' = Reminder1h \<longrightarrow> \<not> reminder_1h_sent l'"
      by simp_all
    from list_all2_right_member [OF rows1(1) mem]
    obtain l0 where fa: "flags_after
        (map (\<lambda>(l, w). l_id l) (filter (\<lambda>(l, w). build_ok b1 l \<and> w = Reminder24h) tp1))
        (map (\<lambda>(l, w). l_id l) (filter (\<lambda>(l, w). build_ok b1 l \<and> w = Reminder1h) tp1)) l0 l'"
      by blast
    then have id0: "l_id l0 = l_id l" using same by (simp add: flags_after_def)
    show False
    proof (cases w)
      case Reminder24h
      with lw have "l_id l \<in> set (map (\<lambda>(l, w). l_id l)
          (filter (\<lambda>(l, w). build_ok b1 l \<and> w = Reminder24h) tp1))"
        by force
      with fa id0 have "reminder_24h_sent l'" by (simp add: flags_after_def)
      with unsent same Reminder24h show False by simp
    next
      case Reminder1h
      with lw have "l_id l \<in> set (map (\<lambda>(l, w). l_id l)
          (filter (\<lambda>(l, w). build_ok b1 l \<and> w = Reminder1h) tp1))"
        by force
      with fa id0 have "reminder_1h_sent l'" by (simp add: flags_after_def)
      with unsent same Reminder1h show False by simp
    qed
  qed
  with dist1 dist2 show ?thesis by simp
qed


section \<open>The layout-correction retry\<close>

lemma needs_layout_correction_iff:
  "needs_layout_correction t \<longleftrightarrow>
     (length (filter is_cyrillic t) = 0 \<and> length (filter is_latin t) > 0)
     \<or> length (filter is_latin t) > 2 * length (filter is_cyrillic t)
     \<or> (length (split_text t) \<le> 2 \<and> list_all fullmatch_latin (split_text t))"
  by (simp add: needs_layout_correction_def Let_def)

text \<open>The classifier is called once, or twice when the retry is made.\<close>

lemma classifier_calls:
  "snd (is_query_relevant_with_layout_correction classify q) =
     (if \<not> classify q \<and> needs_layout_correction q \<and> to_russian_layout q \<noteq> q
      then [q, to_russian_layout q] else [q])"
  by (simp add: is_query_relevant_with_layout_correction_def Let_def)

text \<open>The example of the classifier prompt, typed on the wrong layout.\<close>

lemma ghbdtn_retried:
  "needs_layout_correction (ascii ''ghbdtn'')"
  "to_russian_layout (ascii ''ghbdtn'') = [1087, 1088, 1080, 1074, 1077, 1090]"
  by (simp_all add: needs_layout_correction_def is_latin_def is_cyrillic_def ascii_def Let_def
      to_russian_layout_def translate_char_def layout_table_def eng_def rus_def upper_char_def)

text \<open>
  C9 at the failing input: in \<open>ab\<close> followed by one Cyrillic letter the Latin letters
  outnumber the Cyrillic ones exactly 2:1; \<open>needs_layout_correction\<close> is false, and after
  a "no" the classifier is not called a second time.
\<close>

theorem no_retry_at_two_to_one:
  "length (filter is_latin two_to_one) = 2
   \<and> length (filter is_cyrillic two_to_one) = 1
   \<and> needs_layout_correction two_to_one = False
   \<and> is_query_relevant_with_layout_correction says_no two_to_one = (False, [two_to_one])"
  by (simp add: two_to_one_def is_latin_def is_cyrillic_def needs_layout_correction_def
      is_query_relevant_with_layout_correction_def says_no_def split_text_def is_space_def
      fullmatch_latin_def Let_def)

end
